theory Spec2Isabelle
  imports Complex_Main
begin

section \<open>Conventions of the embedding\<close>

text \<open>
  The TypeScript sources compute with JavaScript numbers. Counts and page indices are
  natural numbers here (integers where the source subtracts), measures and money are
  exact reals: rounding of IEEE doubles is not modelled. Where the source can divide by
  zero (the shipping packer divides box dimensions by book dimensions, and the spine of a
  book that is not perfect bound is 0), the infinities and NaN of JavaScript are modelled
  explicitly by the type \<open>jsnum\<close> below.

  A \<open>for (let i = a; i < n; i++) body\<close> loop is the recursive function \<open>for_loop\<close>, the
  loop body being a state transformer indexed by \<open>i\<close>.
\<close>

function for_loop :: "(nat \<Rightarrow> 's \<Rightarrow> 's) \<Rightarrow> nat \<Rightarrow> nat \<Rightarrow> 's \<Rightarrow> 's" where
  "for_loop body i n s = (if i < n then for_loop body (Suc i) n (body i s) else s)"
  by pat_completeness auto
termination
  by (relation "measure (\<lambda>(body, i, n, s). n - i)") auto

declare for_loop.simps [simp del]

text \<open>
  \<open>Math.ceil(a / b)\<close> on counts with \<open>b > 0\<close>. Where the source can divide a count by zero
  (the sheet count of a grid without slots), the caller treats that case itself.
\<close>

definition ceil_div :: "nat \<Rightarrow> nat \<Rightarrow> nat" where
  "ceil_div a b = nat \<lceil>real a / real b\<rceil>"

section \<open>JavaScript numbers with infinities\<close>

text \<open>
  A JavaScript number that may be infinite or NaN. Finite values are exact reals and the
  sign of zero is not kept: a division by zero takes the zero as \<open>+0\<close>.
\<close>

datatype jsnum = Fin real | PInf | NInf | NaN

fun js_div :: "jsnum \<Rightarrow> jsnum \<Rightarrow> jsnum" where
  "js_div (Fin a) (Fin b) =
     (if b \<noteq> 0 then Fin (a / b) else if a > 0 then PInf else if a < 0 then NInf else NaN)"
| "js_div (Fin a) PInf = Fin 0"
| "js_div (Fin a) NInf = Fin 0"
| "js_div PInf (Fin b) = (if b \<ge> 0 then PInf else NInf)"
| "js_div NInf (Fin b) = (if b \<ge> 0 then NInf else PInf)"
| "js_div _ _ = NaN"

fun js_mul :: "jsnum \<Rightarrow> jsnum \<Rightarrow> jsnum" where
  "js_mul (Fin a) (Fin b) = Fin (a * b)"
| "js_mul (Fin a) PInf = (if a > 0 then PInf else if a < 0 then NInf else NaN)"
| "js_mul (Fin a) NInf = (if a > 0 then NInf else if a < 0 then PInf else NaN)"
| "js_mul PInf (Fin b) = (if b > 0 then PInf else if b < 0 then NInf else NaN)"
| "js_mul NInf (Fin b) = (if b > 0 then NInf else if b < 0 then PInf else NaN)"
| "js_mul PInf PInf = PInf"
| "js_mul PInf NInf = NInf"
| "js_mul NInf PInf = NInf"
| "js_mul NInf NInf = PInf"
| "js_mul _ _ = NaN"

fun js_add :: "jsnum \<Rightarrow> jsnum \<Rightarrow> jsnum" where
  "js_add (Fin a) (Fin b) = Fin (a + b)"
| "js_add NaN _ = NaN"
| "js_add _ NaN = NaN"
| "js_add PInf NInf = NaN"
| "js_add NInf PInf = NaN"
| "js_add PInf _ = PInf"
| "js_add _ PInf = PInf"
| "js_add NInf _ = NInf"
| "js_add _ NInf = NInf"

fun js_floor :: "jsnum \<Rightarrow> jsnum" where
  "js_floor (Fin a) = Fin (of_int \<lfloor>a\<rfloor>)"
| "js_floor x = x"

fun js_ceil :: "jsnum \<Rightarrow> jsnum" where
  "js_ceil (Fin a) = Fin (of_int \<lceil>a\<rceil>)"
| "js_ceil x = x"

text \<open>\<open>a < b\<close>, false as soon as one side is NaN.\<close>

fun js_lt :: "jsnum \<Rightarrow> jsnum \<Rightarrow> bool" where
  "js_lt (Fin a) (Fin b) = (a < b)"
| "js_lt NaN _ = False"
| "js_lt _ NaN = False"
| "js_lt _ NInf = False"
| "js_lt PInf _ = False"
| "js_lt NInf _ = True"
| "js_lt _ PInf = True"

text \<open>\<open>Math.max\<close> and \<open>Math.min\<close>: NaN as soon as one argument is NaN.\<close>

fun js_max2 :: "jsnum \<Rightarrow> jsnum \<Rightarrow> jsnum" where
  "js_max2 NaN _ = NaN"
| "js_max2 _ NaN = NaN"
| "js_max2 a b = (if js_lt a b then b else a)"

fun js_min2 :: "jsnum \<Rightarrow> jsnum \<Rightarrow> jsnum" where
  "js_min2 NaN _ = NaN"
| "js_min2 _ NaN = NaN"
| "js_min2 a b = (if js_lt b a then b else a)"

definition Math_max :: "jsnum list \<Rightarrow> jsnum" where
  "Math_max xs = foldr js_max2 xs NInf"

text \<open>
  \<open>x % y\<close> on finite numbers with \<open>y \<noteq> 0\<close>: the remainder of the division truncated
  towards zero.
\<close>

definition js_rem :: "real \<Rightarrow> real \<Rightarrow> real" where
  "js_rem x y = x - y * of_int (if x / y \<ge> 0 then \<lfloor>x / y\<rfloor> else \<lceil>x / y\<rceil>)"

subsection \<open>Double precision\<close>

text \<open>
  The double nearest to a real number (round to nearest, ties to even, 53 bits of
  significand), for numbers in the normal range. The arithmetic of this embedding is
  exact; \<open>round_double\<close> is used only to state where a result of the program, which is
  rounded at every operation, leaves the exact result.
\<close>

definition round_half_even :: "real \<Rightarrow> int" where
  "round_half_even x =
     (let n = \<lfloor>x\<rfloor>; r = x - of_int n
      in if r < 1 / 2 then n else if r > 1 / 2 then n + 1 else if even n then n else n + 1)"

definition pow2 :: "int \<Rightarrow> real" where
  "pow2 e = (if 0 \<le> e then 2 ^ nat e else 1 / 2 ^ nat (- e))"

definition round_double :: "real \<Rightarrow> real" where
  "round_double x =
     (if x = 0 then 0
      else let e = \<lfloor>log 2 \<bar>x\<bar>\<rfloor> - 52
           in of_int (round_half_even (x / pow2 e)) * pow2 e)"

section \<open>Imposition: pagination\<close>

datatype ImpositionType = Stack | Repeat | CollateCut | Booklet

datatype ReadingDirection = Ltr | Rtl

datatype AlternateRotationType = NoRotation | AltCol | AltRow

text \<open>The fields of \<open>ImpositionParams\<close> that pagination and spine marking read.\<close>

record ImpositionParams =
  columns :: nat
  rows :: nat
  impositionType :: ImpositionType
  isDuplex :: bool
  readingDirection :: ReadingDirection
  showSpineMarks :: bool
  alternateRotationType :: AlternateRotationType

text \<open>
  \<open>inputPages[i]\<close>: the page with index \<open>i\<close> of a document of \<open>n\<close> pages, \<open>undefined\<close>
  (here \<open>None\<close>) outside \<open>0 .. n - 1\<close>. A slot whose page is \<open>None\<close> stays blank.
\<close>

definition inputPages :: "nat \<Rightarrow> int \<Rightarrow> nat option" where
  "inputPages numInputPages i =
     (if 0 \<le> i \<and> i < int numInputPages then Some (nat i) else None)"

definition paddedPageCount :: "nat \<Rightarrow> nat" where
  "paddedPageCount numInputPages = ceil_div numInputPages 4 * 4"

definition slotsPerSheet :: "ImpositionParams \<Rightarrow> nat" where
  "slotsPerSheet ps = (if impositionType ps = Booklet then 2 else columns ps * rows ps)"

text \<open>
  The number of sheets to print. In stack and collate-cut mode the source divides by the
  number of slots; for a grid without slots and a document with pages the quotient is
  \<open>Infinity\<close>, which is \<open>None\<close> here. (\<open>imposePdf\<close> calls this with
  \<open>numInputPages > 0\<close> only.)
\<close>

definition totalPhysicalSheets :: "ImpositionParams \<Rightarrow> nat \<Rightarrow> nat option" where
  "totalPhysicalSheets ps numInputPages =
     (let total =
        (case impositionType ps of
           Booklet \<Rightarrow> Some (paddedPageCount numInputPages div 4)
         | Repeat \<Rightarrow> Some (if isDuplex ps then ceil_div numInputPages 2 else numInputPages)
         | Stack \<Rightarrow>
             let slotsPerPhysicalSheet = slotsPerSheet ps * (if isDuplex ps then 2 else 1)
             in if slotsPerPhysicalSheet = 0 then None
                else Some (ceil_div numInputPages slotsPerPhysicalSheet)
         | CollateCut \<Rightarrow>
             if slotsPerSheet ps = 0 then None
             else
               let pagesPerLogicalStack = ceil_div numInputPages (slotsPerSheet ps)
               in Some (if isDuplex ps then ceil_div pagesPerLogicalStack 2
                        else pagesPerLogicalStack))
      in if total = Some 0 \<and> numInputPages > 0 then Some 1 else total)"

subsection \<open>Booklet signatures\<close>

definition pageIndexFR :: "nat \<Rightarrow> int" where
  "pageIndexFR physicalSheetIndex = int physicalSheetIndex * 2"

definition pageIndexFL :: "nat \<Rightarrow> nat \<Rightarrow> int" where
  "pageIndexFL padded physicalSheetIndex = int padded - (int physicalSheetIndex * 2) - 1"

definition pageIndexBL :: "nat \<Rightarrow> int" where
  "pageIndexBL physicalSheetIndex = int physicalSheetIndex * 2 + 1"

definition pageIndexBR :: "nat \<Rightarrow> nat \<Rightarrow> int" where
  "pageIndexBR padded physicalSheetIndex = int padded - (int physicalSheetIndex * 2) - 2"

definition bookletPagesForFront :: "nat \<Rightarrow> nat \<Rightarrow> nat option list" where
  "bookletPagesForFront numInputPages physicalSheetIndex =
     (let padded = paddedPageCount numInputPages
      in [inputPages numInputPages (pageIndexFL padded physicalSheetIndex),
          inputPages numInputPages (pageIndexFR physicalSheetIndex)])"

definition bookletPagesForBack :: "nat \<Rightarrow> nat \<Rightarrow> nat option list" where
  "bookletPagesForBack numInputPages physicalSheetIndex =
     (let padded = paddedPageCount numInputPages
      in [inputPages numInputPages (pageIndexBL physicalSheetIndex),
          inputPages numInputPages (pageIndexBR padded physicalSheetIndex)])"

subsection \<open>Stack, repeat and collate-cut\<close>

definition pagesForFront :: "ImpositionParams \<Rightarrow> nat \<Rightarrow> nat \<Rightarrow> nat option list" where
  "pagesForFront ps numInputPages physicalSheetIndex =
     (let n = slotsPerSheet ps; m = (if isDuplex ps then 2 else 1 :: nat) in
      if impositionType ps = Stack then
        let baseInputIndexForSheet = physicalSheetIndex * n * m in
        for_loop (\<lambda>i acc.
            let pageIndex = baseInputIndexForSheet + (if isDuplex ps then i * 2 else i)
            in acc @ [if pageIndex < numInputPages then Some pageIndex else None])
          0 n []
      else if impositionType ps = Repeat then
        let masterPageFront =
              (if physicalSheetIndex * m < numInputPages then Some (physicalSheetIndex * m)
               else None)
        in for_loop (\<lambda>i acc. acc @ [masterPageFront]) 0 n []
      else
        let pagesPerLogicalStack = ceil_div numInputPages n;
            totalSheetsForMode =
              (if isDuplex ps then ceil_div pagesPerLogicalStack 2 else pagesPerLogicalStack);
            totalSlotsPerColumn = totalSheetsForMode * m;
            pageOffsets = map (\<lambda>i. i * totalSlotsPerColumn) [0..<n];
            logicalPageIndexFront = physicalSheetIndex * m in
        for_loop (\<lambda>slotIndex acc.
            let pageToEmbedIndex = logicalPageIndexFront + pageOffsets ! slotIndex
            in acc @ [if pageToEmbedIndex < numInputPages then Some pageToEmbedIndex else None])
          0 n [])"

definition pagesForBack :: "ImpositionParams \<Rightarrow> nat \<Rightarrow> nat \<Rightarrow> nat option list" where
  "pagesForBack ps numInputPages physicalSheetIndex =
     (let n = slotsPerSheet ps in
      if impositionType ps = Stack then
        let baseInputIndexForSheet = physicalSheetIndex * n * 2 in
        for_loop (\<lambda>i acc.
            let pageIndex = baseInputIndexForSheet + (i * 2) + 1
            in acc @ [if pageIndex < numInputPages then Some pageIndex else None])
          0 n []
      else if impositionType ps = Repeat then
        let masterPageBack =
              (if (physicalSheetIndex * 2) + 1 < numInputPages
               then Some ((physicalSheetIndex * 2) + 1) else None)
        in for_loop (\<lambda>i acc. acc @ [masterPageBack]) 0 n []
      else
        let pagesPerLogicalStack = ceil_div numInputPages n;
            totalSheetsForMode = ceil_div pagesPerLogicalStack 2;
            totalSlotsPerColumn = totalSheetsForMode * 2;
            pageOffsets = map (\<lambda>i. i * totalSlotsPerColumn) [0..<n];
            logicalPageIndexBack = (physicalSheetIndex * 2) + 1 in
        for_loop (\<lambda>slotIndex acc.
            let pageToEmbedIndex = logicalPageIndexBack + pageOffsets ! slotIndex
            in acc @ [if pageToEmbedIndex < numInputPages then Some pageToEmbedIndex else None])
          0 n [])"

text \<open>
  Work-and-turn: \<open>rowSlice = xs.slice(row * columns, (row + 1) * columns)\<close> is reversed
  and appended, row after row.
\<close>

definition reverseRows :: "nat \<Rightarrow> nat \<Rightarrow> 'a list \<Rightarrow> 'a list" where
  "reverseRows cols rws xs =
     for_loop (\<lambda>row reversedRows.
         let rowSlice = take ((row + 1) * cols - row * cols) (drop (row * cols) xs)
         in reversedRows @ rev rowSlice)
       0 rws []"

definition pagesForBackToRender :: "ImpositionParams \<Rightarrow> nat \<Rightarrow> nat \<Rightarrow> nat option list" where
  "pagesForBackToRender ps numInputPages physicalSheetIndex =
     (let back = pagesForBack ps numInputPages physicalSheetIndex in
      if (impositionType ps = Stack \<or> impositionType ps = CollateCut) \<and> columns ps > 1
      then reverseRows (columns ps) (rows ps) back
      else back)"

subsection \<open>Placing pages on a sheet side\<close>

text \<open>
  What \<open>drawPage\<close> and \<open>drawSpineSlugText\<close> receive for one slot: the slot, the input
  page, whether the page is rotated by 180 degrees, and the side of the spine passed to
  the spine marking (\<open>None\<close> when \<open>showSpineMarks\<close> is off). Coordinates, creep, crop
  marks and the slug are not part of this model.
\<close>

record placement =
  slotIndex :: nat
  pageIndex :: nat
  rotated :: bool
  isSpineOnLeft :: "bool option"

definition drawBookletSide :: "ImpositionParams \<Rightarrow> nat option list \<Rightarrow> placement list" where
  "drawBookletSide ps pages =
     for_loop (\<lambda>i out.
         let isLeftPage = (i = 0) in
         case pages ! i of
           None \<Rightarrow> out
         | Some pageToEmbed \<Rightarrow>
             out @ [\<lparr>slotIndex = i, pageIndex = pageToEmbed, rotated = False,
                     isSpineOnLeft =
                       (if showSpineMarks ps
                        then Some (if readingDirection ps = Ltr then \<not> isLeftPage
                                   else isLeftPage)
                        else None)\<rparr>])
       0 (length pages) []"

definition drawSheetSide ::
  "ImpositionParams \<Rightarrow> bool \<Rightarrow> nat option list \<Rightarrow> placement list" where
  "drawSheetSide ps isFront pages =
     for_loop (\<lambda>slot out.
         case pages ! slot of
           None \<Rightarrow> out
         | Some pageToEmbed \<Rightarrow>
             let row = slot div columns ps; col = slot mod columns ps;
                 shouldRotate =
                   (if alternateRotationType ps = AltCol then col mod 2 \<noteq> 0
                    else if alternateRotationType ps = AltRow then row mod 2 \<noteq> 0
                    else False);
                 baseSpineIsLeft =
                   (if isFront then readingDirection ps = Ltr
                    else readingDirection ps \<noteq> Ltr);
                 finalSpineIsLeft = (if shouldRotate then \<not> baseSpineIsLeft else baseSpineIsLeft)
             in out @ [\<lparr>slotIndex = slot, pageIndex = pageToEmbed, rotated = shouldRotate,
                        isSpineOnLeft =
                          (if showSpineMarks ps then Some finalSpineIsLeft else None)\<rparr>])
       0 (slotsPerSheet ps) []"

text \<open>
  One pass of the sheet loop of \<open>imposePdf\<close>: the placements on the front page and, when
  a back page is added to the output, those on the back page.
\<close>

record sheet =
  frontSide :: "placement list"
  backSide :: "placement list option"

definition imposeSheet :: "ImpositionParams \<Rightarrow> nat \<Rightarrow> nat \<Rightarrow> sheet" where
  "imposeSheet ps numInputPages physicalSheetIndex =
     (if impositionType ps = Booklet then
        \<lparr>frontSide = drawBookletSide ps (bookletPagesForFront numInputPages physicalSheetIndex),
         backSide = Some (drawBookletSide ps (bookletPagesForBack numInputPages physicalSheetIndex))\<rparr>
      else
        \<lparr>frontSide = drawSheetSide ps True (pagesForFront ps numInputPages physicalSheetIndex),
         backSide =
           (if isDuplex ps then
              Some (if list_ex (\<lambda>p. p \<noteq> None) (pagesForBack ps numInputPages physicalSheetIndex)
                    then drawSheetSide ps False
                           (pagesForBackToRender ps numInputPages physicalSheetIndex)
                    else [])
            else None)\<rparr>)"

subsection \<open>Sheet layout\<close>

text \<open>
  The inputs of the layout computation of \<open>imposePdf\<close>: the size in points of the first
  page of the document (the sizing reference), the selected sheet, its orientation, the
  gutters and the row offset. Lengths are exact reals; the two quotients compared under
  automatic orientation are JavaScript divisions, which may divide by a side of 0.
\<close>

datatype SheetOrientation = AutoOrientation | Portrait | Landscape

datatype RowOffsetType = NoOffset | Half

record SheetConfig =
  longSideInches :: real
  shortSideInches :: real

record LayoutParams =
  uploadedDocPageWidthRef :: real
  uploadedDocPageHeightRef :: real
  selectedSheet :: SheetConfig
  sheetOrientation :: SheetOrientation
  horizontalGutterInches :: real
  verticalGutterInches :: real
  rowOffsetType :: RowOffsetType

definition INCH_TO_POINTS :: real where
  "INCH_TO_POINTS = 72"

text \<open>\<open>Math.max(0, n - 1)\<close> for a count \<open>n\<close>.\<close>

definition gaps :: "nat \<Rightarrow> real" where
  "gaps n = real_of_int (max 0 (int n - 1))"

text \<open>The decimal numeral of a natural number, as a template literal prints it.\<close>

function show_nat :: "nat \<Rightarrow> string" where
  "show_nat n =
     (if n < 10 then [''0123456789'' ! n]
      else show_nat (n div 10) @ [''0123456789'' ! (n mod 10)])"
  by pat_completeness auto
termination
  by (relation "measure (\<lambda>n. n)") auto

declare show_nat.simps [simp del]

text \<open>
  Width and height of the output sheet; with automatic orientation the content block of
  the grid has to fit the paper one way or the other.
\<close>

definition actualSheetSize :: "ImpositionParams \<Rightarrow> LayoutParams \<Rightarrow> string + (real \<times> real)" where
  "actualSheetSize ps lay =
     (let horizontalGutterPoints = horizontalGutterInches lay * INCH_TO_POINTS;
          verticalGutterPoints = verticalGutterInches lay * INCH_TO_POINTS;
          paperLongSidePoints = longSideInches (selectedSheet lay) * INCH_TO_POINTS;
          paperShortSidePoints = shortSideInches (selectedSheet lay) * INCH_TO_POINTS
      in case sheetOrientation lay of
           Portrait \<Rightarrow> Inr (paperShortSidePoints, paperLongSidePoints)
         | Landscape \<Rightarrow> Inr (paperLongSidePoints, paperShortSidePoints)
         | AutoOrientation \<Rightarrow>
             let w0 = (uploadedDocPageWidthRef lay * real (columns ps))
                        + (gaps (columns ps) * horizontalGutterPoints);
                 contentBlockRenderWidth =
                   (if rowOffsetType lay = Half \<and> rows ps > 1
                    then w0 + (uploadedDocPageWidthRef lay + horizontalGutterPoints) / 2
                    else w0);
                 contentBlockRenderHeight =
                   (uploadedDocPageHeightRef lay * real (rows ps))
                     + (gaps (rows ps) * verticalGutterPoints);
                 canFitLandscape =
                   (contentBlockRenderWidth \<le> paperLongSidePoints
                      \<and> contentBlockRenderHeight \<le> paperShortSidePoints);
                 canFitPortrait =
                   (contentBlockRenderWidth \<le> paperShortSidePoints
                      \<and> contentBlockRenderHeight \<le> paperLongSidePoints)
             in if canFitLandscape \<and> canFitPortrait then
                  (if js_lt (js_div (Fin contentBlockRenderHeight) (Fin paperShortSidePoints))
                        (js_div (Fin contentBlockRenderWidth) (Fin paperLongSidePoints))
                   then Inr (paperLongSidePoints, paperShortSidePoints)
                   else Inr (paperShortSidePoints, paperLongSidePoints))
                else if canFitLandscape then Inr (paperLongSidePoints, paperShortSidePoints)
                else if canFitPortrait then Inr (paperShortSidePoints, paperLongSidePoints)
                else Inl ''Auto-orientation failed: Content block too large for selected paper.'')"

text \<open>
  The lower left corner of the block of slots centred on a sheet of the given size
  (\<open>startXBlock\<close>, \<open>startYBlock\<close>); a booklet is laid out as a grid of 2 x 1.
\<close>

definition currentColumnsForLayout :: "ImpositionParams \<Rightarrow> nat" where
  "currentColumnsForLayout ps = (if impositionType ps = Booklet then 2 else columns ps)"

definition currentRowsForLayout :: "ImpositionParams \<Rightarrow> nat" where
  "currentRowsForLayout ps = (if impositionType ps = Booklet then 1 else rows ps)"

definition startBlock :: "ImpositionParams \<Rightarrow> LayoutParams \<Rightarrow> real \<times> real \<Rightarrow> real \<times> real" where
  "startBlock ps lay sheetSize =
     (let horizontalGutterPoints = horizontalGutterInches lay * INCH_TO_POINTS;
          verticalGutterPoints = verticalGutterInches lay * INCH_TO_POINTS;
          layoutCellWidth = uploadedDocPageWidthRef lay;
          layoutCellHeight = uploadedDocPageHeightRef lay;
          w0 = (layoutCellWidth * real (currentColumnsForLayout ps))
                 + (gaps (currentColumnsForLayout ps) * horizontalGutterPoints);
          totalRequiredHeight =
            (layoutCellHeight * real (currentRowsForLayout ps))
              + (gaps (currentRowsForLayout ps) * verticalGutterPoints);
          totalRequiredWidth =
            (if rowOffsetType lay = Half \<and> currentRowsForLayout ps > 1
             then w0 + (layoutCellWidth + horizontalGutterPoints) / 2 else w0)
      in ((fst sheetSize - totalRequiredWidth) / 2, (snd sheetSize - totalRequiredHeight) / 2))"

subsection \<open>The engine\<close>

text \<open>
  \<open>imposePdf\<close> on a document of \<open>numInputPages\<close> pages. It throws (\<open>Inl\<close>, with the message)
  on a document without pages, on a reference page without extent, when automatic
  orientation finds no fit, and when the grid is too large for the sheet. Otherwise it
  runs the sheet loop, which produces the sheets in ascending order; when the number of
  sheets is \<open>Infinity\<close> the loop does not end and there is no result (\<open>None\<close>). Splitting
  the output into several documents (chunking) keeps the order of the sheets and is not
  modelled.
\<close>

definition imposePdf ::
  "ImpositionParams \<Rightarrow> LayoutParams \<Rightarrow> nat \<Rightarrow> (string + sheet list) option" where
  "imposePdf ps lay numInputPages =
     (if numInputPages = 0 then Some (Inl ''The uploaded PDF has no pages.'')
      else if uploadedDocPageWidthRef lay \<le> 0 \<or> uploadedDocPageHeightRef lay \<le> 0
      then Some (Inl ''Reference page has invalid dimensions.'')
      else
        case actualSheetSize ps lay of
          Inl msg \<Rightarrow> Some (Inl msg)
        | Inr sheetSize \<Rightarrow>
            if fst (startBlock ps lay sheetSize) < 0 \<or> snd (startBlock ps lay sheetSize) < 0
            then Some (Inl (''Content ('' @ show_nat (currentColumnsForLayout ps) @ ''x''
                              @ show_nat (currentRowsForLayout ps)
                              @ '' grid) too large for sheet.''))
            else
              case totalPhysicalSheets ps numInputPages of
                None \<Rightarrow> None
              | Some sheetCount \<Rightarrow>
                  Some (Inr (for_loop (\<lambda>physicalSheetIndex out.
                               out @ [imposeSheet ps numInputPages physicalSheetIndex])
                             0 sheetCount [])))"

text \<open>The input page placed in a slot of a drawn side, \<open>None\<close> for a blank slot.\<close>

definition pageInSlot :: "placement list \<Rightarrow> nat \<Rightarrow> nat option" where
  "pageInSlot ds i = map_option pageIndex (find (\<lambda>d. slotIndex d = i) ds)"

subsection \<open>The preview's mapping\<close>

text \<open>
  JavaScript arrays: a write past the end extends the array (the hole reads as
  \<open>undefined\<close>), a read past the end gives \<open>undefined\<close>. Both \<open>null\<close> and \<open>undefined\<close>
  are \<open>None\<close>.
\<close>

definition array_set :: "'a option list \<Rightarrow> nat \<Rightarrow> 'a \<Rightarrow> 'a option list" where
  "array_set xs i v =
     (if i < length xs then xs[i := Some v]
      else xs @ replicate (i - length xs) None @ [Some v])"

definition array_get :: "'a option list \<Rightarrow> nat \<Rightarrow> 'a option" where
  "array_get xs i = (if i < length xs then xs ! i else None)"

definition getPageMappingForSheet ::
  "nat \<Rightarrow> bool \<Rightarrow> ImpositionType \<Rightarrow> nat \<Rightarrow> nat \<Rightarrow> bool \<Rightarrow> nat \<Rightarrow> nat option list" where
  "getPageMappingForSheet physicalSheet0Based isSheetSideFront impType cols rws
       isDocumentDuplex totalInputPdfPages =
     (let n = cols * rws; m = (if isDocumentDuplex then 2 else 1 :: nat) in
      if n = 0 \<or> totalInputPdfPages = 0 then replicate n None
      else
        let empty = replicate n None;
            pageIndicesForSlots =
              (if impType = Booklet then
                 let padded = ceil_div totalInputPdfPages 4 * 4;
                     pageIndices =
                       (if isSheetSideFront
                        then [int padded - (int physicalSheet0Based * 2) - 1,
                              int physicalSheet0Based * 2]
                        else [int physicalSheet0Based * 2 + 1,
                              int padded - (int physicalSheet0Based * 2) - 2]);
                     a1 = (if pageIndices ! 0 \<ge> 0 \<and> pageIndices ! 0 < int totalInputPdfPages
                           then array_set empty 0 (nat (pageIndices ! 0)) else empty)
                 in (if pageIndices ! 1 \<ge> 0 \<and> pageIndices ! 1 < int totalInputPdfPages
                     then array_set a1 1 (nat (pageIndices ! 1)) else a1)
               else if impType = Stack then
                 let baseInputIndexForSheet = physicalSheet0Based * n * m;
                     pageOffset = (if isSheetSideFront then 0 else 1 :: nat) in
                 for_loop (\<lambda>i a.
                     let pageIndex =
                           baseInputIndexForSheet
                             + (if isDocumentDuplex then (i * 2) + pageOffset else i)
                     in if pageIndex < totalInputPdfPages then array_set a i pageIndex else a)
                   0 n empty
               else if impType = Repeat then
                 let masterPageIndex =
                       physicalSheet0Based * m + (if isSheetSideFront then 0 else 1)
                 in if masterPageIndex < totalInputPdfPages
                    then for_loop (\<lambda>i a. array_set a i masterPageIndex) 0 n empty
                    else empty
               else
                 let pagesPerLogicalStack = ceil_div totalInputPdfPages n;
                     totalSheetsForMode =
                       (if isDocumentDuplex then ceil_div pagesPerLogicalStack 2
                        else pagesPerLogicalStack);
                     totalSlotsPerColumn = totalSheetsForMode * m;
                     pageOffsets = map (\<lambda>i. i * totalSlotsPerColumn) [0..<n];
                     logicalPageIndex =
                       physicalSheet0Based * m + (if isSheetSideFront then 0 else 1) in
                 for_loop (\<lambda>slot a.
                     let pageToEmbedIndex = logicalPageIndex + pageOffsets ! slot
                     in if pageToEmbedIndex < totalInputPdfPages
                        then array_set a slot pageToEmbedIndex else a)
                   0 n empty)
        in if \<not> isSheetSideFront \<and> isDocumentDuplex
                \<and> (impType = Stack \<or> impType = CollateCut) \<and> cols > 1
           then reverseRows cols rws pageIndicesForSlots
           else pageIndicesForSlots)"

subsection \<open>Cutting and stacking the printed sheets\<close>

text \<open>
  The post-press handling of a collate-cut job, as the specification describes it; it is
  not code of the repository. A sheet is turned over its vertical axis, so the back slot
  behind front slot \<open>(row, col)\<close> is \<open>(row, columns - 1 - col)\<close>.

  \<open>stackColumns\<close> follows the words of the specification: every sheet is cut into its
  vertical columns. The strips of one column, sheet after sheet, form a pile; a strip is
  read front before back, each side from the top row down. The piles are stacked in
  column order.

  \<open>cutAndStack\<close> cuts every sheet into its single slots. The leaves of one slot
  position, sheet after sheet, front before back, form a pile; the piles are stacked in
  slot order. On a grid of one row a strip is a single leaf and the two coincide.
\<close>

definition slotBehind :: "nat \<Rightarrow> nat \<Rightarrow> nat" where
  "slotBehind cols j = (j div cols) * cols + (cols - 1 - j mod cols)"

definition leafPages :: "nat \<Rightarrow> sheet \<Rightarrow> nat \<Rightarrow> nat option list" where
  "leafPages cols sh j =
     pageInSlot (frontSide sh) j
       # (case backSide sh of None \<Rightarrow> [] | Some bs \<Rightarrow> [pageInSlot bs (slotBehind cols j)])"

definition cutAndStack :: "ImpositionParams \<Rightarrow> sheet list \<Rightarrow> nat option list" where
  "cutAndStack ps sheets =
     concat (map (\<lambda>j. concat (map (\<lambda>sh. leafPages (columns ps) sh j) sheets))
               [0..<columns ps * rows ps])"

definition stripPages :: "ImpositionParams \<Rightarrow> sheet \<Rightarrow> nat \<Rightarrow> nat option list" where
  "stripPages ps sh col =
     map (\<lambda>row. pageInSlot (frontSide sh) (row * columns ps + col)) [0..<rows ps]
       @ (case backSide sh of
            None \<Rightarrow> []
          | Some bs \<Rightarrow>
              map (\<lambda>row. pageInSlot bs (slotBehind (columns ps) (row * columns ps + col)))
                [0..<rows ps])"

definition stackColumns :: "ImpositionParams \<Rightarrow> sheet list \<Rightarrow> nat option list" where
  "stackColumns ps sheets =
     concat (map (\<lambda>col. concat (map (\<lambda>sh. stripPages ps sh col) sheets)) [0..<columns ps])"

text \<open>
  An example layout: pages of 5.5 x 8.5 inches on a sheet of 13 x 19 inches, automatic
  orientation, no gutters.
\<close>

definition exampleLayout :: LayoutParams where
  "exampleLayout =
     \<lparr>uploadedDocPageWidthRef = 396, uploadedDocPageHeightRef = 612,
      selectedSheet = \<lparr>longSideInches = 19, shortSideInches = 13\<rparr>,
      sheetOrientation = AutoOrientation,
      horizontalGutterInches = 0, verticalGutterInches = 0, rowOffsetType = NoOffset\<rparr>"

section \<open>Cover geometry\<close>

datatype InteriorPaperTypeKey = InteriorOpaque | InteriorGloss | InteriorSilk

datatype InteriorPaperWeightKey = Interior60 | Interior80 | Interior100

datatype CoverPaperTypeKey = CoverSilk | CoverGloss

datatype CoverPaperWeightKey = Cover100 | Cover111 | Cover130

text \<open>Pages per inch of the interior stocks, and caliper in inches of the cover stocks.\<close>

fun INTERIOR_PAPER_PPI :: "InteriorPaperTypeKey \<Rightarrow> InteriorPaperWeightKey \<Rightarrow> real" where
  "INTERIOR_PAPER_PPI InteriorOpaque Interior60 = 500"
| "INTERIOR_PAPER_PPI InteriorOpaque Interior80 = 400"
| "INTERIOR_PAPER_PPI InteriorOpaque Interior100 = 330"
| "INTERIOR_PAPER_PPI InteriorGloss Interior60 = 540"
| "INTERIOR_PAPER_PPI InteriorGloss Interior80 = 430"
| "INTERIOR_PAPER_PPI InteriorGloss Interior100 = 360"
| "INTERIOR_PAPER_PPI InteriorSilk Interior60 = 530"
| "INTERIOR_PAPER_PPI InteriorSilk Interior80 = 420"
| "INTERIOR_PAPER_PPI InteriorSilk Interior100 = 350"

fun COVER_PAPER_THICKNESS :: "CoverPaperTypeKey \<Rightarrow> CoverPaperWeightKey \<Rightarrow> real" where
  "COVER_PAPER_THICKNESS CoverSilk Cover100 = 95 / 10000"
| "COVER_PAPER_THICKNESS CoverSilk Cover111 = 110 / 10000"
| "COVER_PAPER_THICKNESS CoverSilk Cover130 = 135 / 10000"
| "COVER_PAPER_THICKNESS CoverGloss Cover100 = 90 / 10000"
| "COVER_PAPER_THICKNESS CoverGloss Cover111 = 105 / 10000"
| "COVER_PAPER_THICKNESS CoverGloss Cover130 = 130 / 10000"

record CalculatedDimensions =
  spineWidthInches :: real
  interiorBlockThicknessInches :: real
  fullCoverWidthInches :: real
  fullCoverHeightInches :: real
  selectedInteriorPPI :: real
  selectedCoverThicknessInches :: real

text \<open>
  The effect of \<open>BookSpineCalculator\<close> that fills \<open>calculatedDimensions\<close>; \<open>None\<close> is the
  state \<open>null\<close>. The test \<open>!ppi\<close> holds for a zero entry of the table.
\<close>

definition calculatedDimensions ::
  "InteriorPaperTypeKey \<Rightarrow> InteriorPaperWeightKey \<Rightarrow> CoverPaperTypeKey \<Rightarrow> CoverPaperWeightKey
     \<Rightarrow> real \<Rightarrow> real \<Rightarrow> real \<Rightarrow> real \<Rightarrow> CalculatedDimensions option" where
  "calculatedDimensions interiorPaperType interiorPaperWeight coverPaperType coverPaperWeight
       numInteriorPages finishedBookWidth finishedBookHeight coverBleed =
     (if numInteriorPages \<le> 0 \<or> finishedBookWidth \<le> 0 \<or> finishedBookHeight \<le> 0 then None
      else
        let ppi = INTERIOR_PAPER_PPI interiorPaperType interiorPaperWeight;
            coverThickness = COVER_PAPER_THICKNESS coverPaperType coverPaperWeight in
        if ppi = 0 then None
        else
          let interiorBlockThickness = numInteriorPages / ppi;
              spine = interiorBlockThickness + (coverThickness * 2);
              fullCoverW = (2 * finishedBookWidth) + spine + (2 * coverBleed);
              fullCoverH = finishedBookHeight + (2 * coverBleed)
          in Some \<lparr>spineWidthInches = spine,
                    interiorBlockThicknessInches = interiorBlockThickness,
                    fullCoverWidthInches = fullCoverW,
                    fullCoverHeightInches = fullCoverH,
                    selectedInteriorPPI = ppi,
                    selectedCoverThicknessInches = coverThickness\<rparr>)"

section \<open>Shipping\<close>

text \<open>
  \<open>height\<close> of a \<open>ShippingBox\<close> is a number (\<open>Inl\<close>) or a list of depths (\<open>Inr\<close>). The
  depths of the catalogue are whole numbers; they are kept as naturals because the name
  of a flattened box prints the depth.
\<close>

record ShippingBox =
  box_name :: string
  box_width :: real
  box_length :: real
  box_height :: "real + nat list"
  box_cost :: real

definition shippingBoxes :: "ShippingBox list" where
  "shippingBoxes =
     [\<lparr>box_name = ''Standard Small Box (11.75x8.75x4.75)'', box_width = 11.75,
        box_length = 8.75, box_height = Inl 4.75, box_cost = 1.75\<rparr>,
      \<lparr>box_name = ''Standard Medium Box (11.25x8.75x9.5)'', box_width = 11.25,
        box_length = 8.75, box_height = Inl 9.5, box_cost = 2.50\<rparr>,
      \<lparr>box_name = ''Standard Large Box (12x9x10)'', box_width = 12,
        box_length = 9, box_height = Inl 10, box_cost = 3.00\<rparr>,
      \<lparr>box_name = ''Large Multi-Depth Box (12.25x9.25x12)'', box_width = 12.25,
        box_length = 9.25, box_height = Inr [12, 10, 8, 6], box_cost = 3.50\<rparr>]"

definition MAX_WEIGHT_PER_BOX_LBS :: real where
  "MAX_WEIGHT_PER_BOX_LBS = 40"

definition getCarrierCost :: "real \<Rightarrow> real" where
  "getCarrierCost totalWeightLbs =
     (if totalWeightLbs \<le> 0 then 0
      else if totalWeightLbs \<le> 1 then 9.50
      else if totalWeightLbs \<le> 5 then 12.00
      else if totalWeightLbs \<le> 10 then 15.00
      else if totalWeightLbs \<le> 20 then 20.00
      else if totalWeightLbs \<le> 30 then 28.00
      else if totalWeightLbs \<le> 40 then 35.00
      else if totalWeightLbs \<le> 50 then 42.00
      else 42.00 + (totalWeightLbs - 50) * 0.75)"

text \<open>A box with a single height: an element of \<open>flatBoxes\<close>.\<close>

record FlatBox =
  name :: string
  width :: real
  len :: real
  height :: real
  cost :: real

definition flatBoxes :: "FlatBox list" where
  "flatBoxes =
     concat (map (\<lambda>box.
         case box_height box of
           Inr hs \<Rightarrow>
             map (\<lambda>h. \<lparr>name = box_name box @ '' ('' @ show_nat h @ [CHR 0x22] @ '')'',
                        width = box_width box, len = box_length box, height = real h,
                        cost = box_cost box\<rparr>) hs
         | Inl h \<Rightarrow>
             [\<lparr>name = box_name box, width = box_width box, len = box_length box,
               height = h, cost = box_cost box\<rparr>])
       shippingBoxes)"

record ShippingBreakdown =
  boxName :: string
  boxCount :: jsnum
  booksPerBox :: jsnum
  totalWeightLbs :: real

record bestOption =
  best_cost :: jsnum
  best_breakdown :: "ShippingBreakdown option"

record ShippingResult =
  shippingCost :: jsnum
  breakdown :: "ShippingBreakdown option"

text \<open>\<open>xs.sort((a, b) => b - a)\<close> on finite numbers.\<close>

definition sort_desc :: "real list \<Rightarrow> real list" where
  "sort_desc xs = rev (sort xs)"

text \<open>The six products of per-axis floors of a book \<open>w x l x s\<close> in a box \<open>W x L x H\<close>.\<close>

definition orientations :: "real \<Rightarrow> real \<Rightarrow> real \<Rightarrow> FlatBox \<Rightarrow> jsnum list" where
  "orientations w l s box =
     (let W = width box; L = len box; H = height box;
          fl = (\<lambda>a b. js_floor (js_div (Fin a) (Fin b)))
      in [js_mul (js_mul (fl W w) (fl L l)) (fl H s),
          js_mul (js_mul (fl W w) (fl L s)) (fl H l),
          js_mul (js_mul (fl W l) (fl L w)) (fl H s),
          js_mul (js_mul (fl W l) (fl L s)) (fl H w),
          js_mul (js_mul (fl W s) (fl L w)) (fl H l),
          js_mul (js_mul (fl W s) (fl L l)) (fl H w)])"

text \<open>
  One pass of the loop over \<open>boxesToConsider\<close> in \<open>calculateShipping\<close>; every \<open>continue\<close>
  leaves \<open>bestOption\<close> as it is. The floors are floors of exact quotients: they agree with
  the program's \<open>Math.floor\<close> unless the double-precision division rounds up to an integer.
\<close>

definition considerBox ::
  "real \<Rightarrow> real \<Rightarrow> real \<Rightarrow> real \<Rightarrow> real \<Rightarrow> FlatBox \<Rightarrow> bestOption \<Rightarrow> bestOption" where
  "considerBox quantity bookWidth bookLength bookSpine bookWeightLbs box best =
     (let bookDims = sort_desc [bookWidth, bookLength, bookSpine];
          boxDims = sort_desc [width box, len box, height box] in
      if bookDims ! 0 > boxDims ! 0 \<or> bookDims ! 1 > boxDims ! 1 \<or> bookDims ! 2 > boxDims ! 2
      then best
      else
        let booksPerBox0 = Math_max (orientations bookWidth bookLength bookSpine box) in
        if booksPerBox0 = Fin 0 then best
        else
          let maxBooksByWeight = js_floor (js_div (Fin MAX_WEIGHT_PER_BOX_LBS) (Fin bookWeightLbs)) in
          if js_lt (Fin 0) maxBooksByWeight then
            let booksPerBox1 = js_min2 booksPerBox0 maxBooksByWeight;
                boxCount1 = js_ceil (js_div (Fin quantity) booksPerBox1);
                handlingCost = js_mul boxCount1 (Fin (cost box));
                totalWeight = quantity * bookWeightLbs;
                carrierCost = getCarrierCost totalWeight;
                totalCost1 = js_add handlingCost (Fin carrierCost)
            in if js_lt totalCost1 (best_cost best)
               then \<lparr>best_cost = totalCost1,
                     best_breakdown =
                       Some \<lparr>boxName = name box, boxCount = boxCount1,
                              booksPerBox = booksPerBox1, totalWeightLbs = totalWeight\<rparr>\<rparr>
               else best
          else best)"

definition boxesToConsider :: "string option \<Rightarrow> FlatBox list" where
  "boxesToConsider overrideBoxName =
     (case overrideBoxName of
        None \<Rightarrow> flatBoxes
      | Some n \<Rightarrow> if n = [] then flatBoxes else filter (\<lambda>box. name box = n) flatBoxes)"

definition calculateShipping ::
  "real \<Rightarrow> real \<Rightarrow> real \<Rightarrow> real \<Rightarrow> real \<Rightarrow> string option \<Rightarrow> ShippingResult" where
  "calculateShipping quantity bookWidth bookLength bookSpine bookWeightLbs overrideBoxName =
     (if quantity \<le> 0 \<or> bookWeightLbs \<le> 0 then \<lparr>shippingCost = Fin 0, breakdown = None\<rparr>
      else
        let best = foldl (\<lambda>best box.
                       considerBox quantity bookWidth bookLength bookSpine bookWeightLbs box best)
                     \<lparr>best_cost = PInf, best_breakdown = None\<rparr>
                     (boxesToConsider overrideBoxName)
        in \<lparr>shippingCost = (if best_cost best = PInf then Fin 0 else best_cost best),
             breakdown = best_breakdown best\<rparr>)"

section \<open>Cost estimator\<close>

datatype PaperType = Coated | Uncoated

record PaperStock =
  paper_name :: string
  gsm :: real
  paper_type :: PaperType
  finish :: string
  parentWidth :: real
  parentHeight :: real
  sku :: "string option"
  costPerSheet :: real
  usage :: string

datatype PrintColor = COLOR | BW

datatype BindingMethod = PerfectBound | SaddleStitch | NoBinding

datatype LaminationType = GlossLamination | MatteLamination | NoLamination

record JobDetails =
  bookTitle :: string
  quantity :: real
  finishedWidth :: real
  finishedHeight :: real
  bwPages :: real
  bwPaperSku :: "string option"
  colorPages :: real
  colorPaperSku :: "string option"
  hasCover :: bool
  coverPaperSku :: "string option"
  coverPrintColor :: PrintColor
  coverPrintsOnBothSides :: bool
  laminationType :: LaminationType
  bindingMethod :: BindingMethod
  laborRate :: real
  markupPercent :: real
  spoilagePercent :: real
  calculateShippingFlag :: bool
  overrideShippingBoxName :: "string option"

record LaborTimeBreakdown =
  printingTimeMins :: real
  laminatingTimeMins :: real
  bindingTimeMins :: real
  setupTimeMins :: real
  trimmingTimeMins :: real
  wastageTimeMins :: real

record CostBreakdown =
  error :: "string option"
  bwPaperCost :: real
  colorPaperCost :: real
  coverPaperCost :: real
  bwClickCost :: real
  colorClickCost :: real
  coverClickCost :: real
  laminationCost :: real
  laborCost :: real
  shippingCostTotal :: jsnum
  subtotal :: real
  markupAmount :: real
  totalCost :: jsnum
  pricePerUnit :: jsnum
  bwPressSheets :: real
  colorPressSheets :: real
  coverPressSheets :: real
  bwImposition :: real
  colorImposition :: real
  coverImposition :: real
  totalClicks :: real
  productionTimeHours :: real
  laborTimeBreakdown :: LaborTimeBreakdown
  shippingBreakdown :: "ShippingBreakdown option"

subsection \<open>Production constants\<close>

definition COLOR_CLICK_COST :: real where "COLOR_CLICK_COST = 0.039"
definition BW_CLICK_COST :: real where "BW_CLICK_COST = 0.009"
definition GLOSS_LAMINATE_COST_PER_COVER :: real where "GLOSS_LAMINATE_COST_PER_COVER = 0.30"
definition MATTE_LAMINATE_COST_PER_COVER :: real where "MATTE_LAMINATE_COST_PER_COVER = 0.60"
definition PRINTING_SPEED_SPM :: real where "PRINTING_SPEED_SPM = 15"
definition LAMINATING_SPEED_MPM :: real where "LAMINATING_SPEED_MPM = 5"
definition PERFECT_BINDER_SETUP_MINS :: real where "PERFECT_BINDER_SETUP_MINS = 15"
definition PERFECT_BINDER_SPEED_BPH :: real where "PERFECT_BINDER_SPEED_BPH = 300"
definition SADDLE_STITCHER_SETUP_MINS :: real where "SADDLE_STITCHER_SETUP_MINS = 10"
definition SADDLE_STITCHER_SPEED_BPH :: real where "SADDLE_STITCHER_SPEED_BPH = 400"
definition BASE_PREP_TIME_MINS :: real where "BASE_PREP_TIME_MINS = 20"
definition WASTAGE_FACTOR :: real where "WASTAGE_FACTOR = 0.15"
definition BINDING_INEFFICIENCY_FACTOR :: real where "BINDING_INEFFICIENCY_FACTOR = 1.20"
definition TRIMMING_SETUP_MINS :: real where "TRIMMING_SETUP_MINS = 10"
definition TRIMMING_BOOKS_PER_CYCLE :: real where "TRIMMING_BOOKS_PER_CYCLE = 250"
definition TRIMMING_CYCLE_TIME_MINS :: real where "TRIMMING_CYCLE_TIME_MINS = 5"
definition SQ_INCH_TO_SQ_METER :: real where "SQ_INCH_TO_SQ_METER = 0.00064516"
definition GRAMS_TO_LBS :: real where "GRAMS_TO_LBS = 0.00220462"

subsection \<open>Helpers\<close>

definition calculateImposition :: "real \<Rightarrow> real \<Rightarrow> real \<Rightarrow> real \<Rightarrow> real" where
  "calculateImposition parentW parentH jobW jobH =
     (if jobW \<le> 0 \<or> jobH \<le> 0 then 0
      else
        let fit1 = of_int \<lfloor>parentW / jobW\<rfloor> * of_int \<lfloor>parentH / jobH\<rfloor>;
            fit2 = of_int \<lfloor>parentW / jobH\<rfloor> * of_int \<lfloor>parentH / jobW\<rfloor>
        in max fit1 fit2)"

definition getPaperThicknessInches :: "PaperStock \<Rightarrow> real" where
  "getPaperThicknessInches paper =
     (let caliperFactor = (if paper_type paper = Coated then 0.9 else 1.3);
          caliperMicrons = gsm paper * caliperFactor
      in caliperMicrons / 25400)"

definition emptyLaborBreakdown :: LaborTimeBreakdown where
  "emptyLaborBreakdown =
     \<lparr>printingTimeMins = 0, laminatingTimeMins = 0, bindingTimeMins = 0, setupTimeMins = 0,
      trimmingTimeMins = 0, wastageTimeMins = 0\<rparr>"

definition createEmptyCostBreakdown :: "string option \<Rightarrow> CostBreakdown" where
  "createEmptyCostBreakdown err =
     \<lparr>error = err,
      bwPaperCost = 0, colorPaperCost = 0, coverPaperCost = 0,
      bwClickCost = 0, colorClickCost = 0, coverClickCost = 0,
      laminationCost = 0, laborCost = 0, shippingCostTotal = Fin 0, subtotal = 0,
      markupAmount = 0, totalCost = Fin 0, pricePerUnit = Fin 0,
      bwPressSheets = 0, colorPressSheets = 0, coverPressSheets = 0,
      bwImposition = 0, colorImposition = 0, coverImposition = 0,
      totalClicks = 0, productionTimeHours = 0,
      laborTimeBreakdown = emptyLaborBreakdown,
      shippingBreakdown = None\<rparr>"

text \<open>
  \<open>calculateSingleBookWeightLbs\<close>; the caller always passes a spine width, so the test
  \<open>spineWidth !== undefined\<close> is true.
\<close>

definition calculateSingleBookWeightLbs ::
  "JobDetails \<Rightarrow> PaperStock option \<Rightarrow> PaperStock option \<Rightarrow> PaperStock option \<Rightarrow> real \<Rightarrow> real"
  where
  "calculateSingleBookWeightLbs details bwPaper colorPaper coverPaper spineWidth =
     (let g0 = 0;
          g1 = (case bwPaper of
                  Some p \<Rightarrow>
                    if bwPages details > 0 then
                      let bwSheetAreaSqIn = finishedWidth details * finishedHeight details;
                          totalBwPaperAreaSqM =
                            (bwPages details / 2) * bwSheetAreaSqIn * SQ_INCH_TO_SQ_METER
                      in g0 + totalBwPaperAreaSqM * gsm p
                    else g0
                | None \<Rightarrow> g0);
          g2 = (case colorPaper of
                  Some p \<Rightarrow>
                    if colorPages details > 0 then
                      let colorSheetAreaSqIn = finishedWidth details * finishedHeight details;
                          totalColorPaperAreaSqM =
                            (colorPages details / 2) * colorSheetAreaSqIn * SQ_INCH_TO_SQ_METER
                      in g1 + totalColorPaperAreaSqM * gsm p
                    else g1
                | None \<Rightarrow> g1);
          g3 = (case coverPaper of
                  Some p \<Rightarrow>
                    if hasCover details then
                      let coverSpreadWidth = (finishedWidth details * 2) + spineWidth;
                          coverAreaSqIn = coverSpreadWidth * finishedHeight details;
                          coverAreaSqM = coverAreaSqIn * SQ_INCH_TO_SQ_METER
                      in g2 + coverAreaSqM * gsm p
                    else g2
                | None \<Rightarrow> g2)
      in g3 * GRAMS_TO_LBS)"

subsection \<open>calculateCosts\<close>

text \<open>
  The catalogue \<open>paperData\<close> is not among the sources and is a parameter. Every local
  constant of \<open>calculateCosts\<close> is a definition of its own below, named after it, so that
  the function reads as in the source. Two fields are renamed because Isabelle has one
  name space for constants: \<open>calculateShipping\<close> of \<open>JobDetails\<close> is
  \<open>calculateShippingFlag\<close>, \<open>shippingCost\<close> of \<open>CostBreakdown\<close> is \<open>shippingCostTotal\<close>.
  \<open>spoilagePercent || 0\<close> is \<open>spoilagePercent\<close> on numbers.
\<close>

definition findPaper :: "PaperStock list \<Rightarrow> string option \<Rightarrow> PaperStock option" where
  "findPaper paperData s = find (\<lambda>p. sku p = s) paperData"

definition bwPaper :: "PaperStock list \<Rightarrow> JobDetails \<Rightarrow> PaperStock option" where
  "bwPaper paperData details = findPaper paperData (bwPaperSku details)"

definition colorPaper :: "PaperStock list \<Rightarrow> JobDetails \<Rightarrow> PaperStock option" where
  "colorPaper paperData details = findPaper paperData (colorPaperSku details)"

definition coverPaper :: "PaperStock list \<Rightarrow> JobDetails \<Rightarrow> PaperStock option" where
  "coverPaper paperData details = findPaper paperData (coverPaperSku details)"

definition totalInteriorPages :: "JobDetails \<Rightarrow> real" where
  "totalInteriorPages details =
     (if bwPages details > 0 then bwPages details else 0)
       + (if colorPages details > 0 then colorPages details else 0)"

definition spoilageMultiplier :: "JobDetails \<Rightarrow> real" where
  "spoilageMultiplier details = 1 + (spoilagePercent details / 100)"

definition bwImpositionOf :: "PaperStock list \<Rightarrow> JobDetails \<Rightarrow> real" where
  "bwImpositionOf paperData details =
     (case bwPaper paperData details of
        Some p \<Rightarrow> calculateImposition (parentWidth p) (parentHeight p)
                    (finishedWidth details) (finishedHeight details)
      | None \<Rightarrow> 0)"

definition colorImpositionOf :: "PaperStock list \<Rightarrow> JobDetails \<Rightarrow> real" where
  "colorImpositionOf paperData details =
     (case colorPaper paperData details of
        Some p \<Rightarrow> calculateImposition (parentWidth p) (parentHeight p)
                    (finishedWidth details) (finishedHeight details)
      | None \<Rightarrow> 0)"

definition spineWidth :: "PaperStock list \<Rightarrow> JobDetails \<Rightarrow> real" where
  "spineWidth paperData details =
     (if hasCover details \<and> coverPaper paperData details \<noteq> None
         \<and> bindingMethod details = PerfectBound
      then
        let bwLeaves = of_int \<lceil>(if bwPages details > 0 then bwPages details else 0) / 2\<rceil>;
            colorLeaves =
              of_int \<lceil>(if colorPages details > 0 then colorPages details else 0) / 2\<rceil>;
            bwPaperThickness =
              (case bwPaper paperData details of
                 Some p \<Rightarrow> if bwPages details > 0 then getPaperThicknessInches p else 0
               | None \<Rightarrow> 0);
            colorPaperThickness =
              (case colorPaper paperData details of
                 Some p \<Rightarrow> if colorPages details > 0 then getPaperThicknessInches p else 0
               | None \<Rightarrow> 0)
        in (bwLeaves * bwPaperThickness) + (colorLeaves * colorPaperThickness)
      else 0)"

definition coverImpositionOf :: "PaperStock list \<Rightarrow> JobDetails \<Rightarrow> real" where
  "coverImpositionOf paperData details =
     (if hasCover details then
        case coverPaper paperData details of
          Some cp \<Rightarrow>
            let coverSpreadWidth = (finishedWidth details * 2) + spineWidth paperData details;
                coverSpreadHeight = finishedHeight details;
                maxPossibleImposition =
                  calculateImposition (parentWidth cp) (parentHeight cp)
                    coverSpreadWidth coverSpreadHeight
            in if maxPossibleImposition \<ge> 1 then 1 else 0
        | None \<Rightarrow> 0
      else 0)"

definition bwPressSheetsOf :: "PaperStock list \<Rightarrow> JobDetails \<Rightarrow> real" where
  "bwPressSheetsOf paperData details =
     of_int \<lceil>(if bwImpositionOf paperData details > 0
               then of_int \<lceil>quantity details
                               * of_int \<lceil>(if bwPages details > 0 then bwPages details else 0) / 2\<rceil>
                               / bwImpositionOf paperData details\<rceil>
               else 0) * spoilageMultiplier details\<rceil>"

definition colorPressSheetsOf :: "PaperStock list \<Rightarrow> JobDetails \<Rightarrow> real" where
  "colorPressSheetsOf paperData details =
     of_int \<lceil>(if colorImpositionOf paperData details > 0
               then of_int \<lceil>quantity details
                               * of_int \<lceil>(if colorPages details > 0 then colorPages details else 0) / 2\<rceil>
                               / colorImpositionOf paperData details\<rceil>
               else 0) * spoilageMultiplier details\<rceil>"

definition coverPressSheetsOf :: "PaperStock list \<Rightarrow> JobDetails \<Rightarrow> real" where
  "coverPressSheetsOf paperData details =
     (if hasCover details then
        of_int \<lceil>(if coverImpositionOf paperData details > 0
                  then of_int \<lceil>quantity details / coverImpositionOf paperData details\<rceil>
                  else 0) * spoilageMultiplier details\<rceil>
      else 0)"

definition bwPaperCostOf :: "PaperStock list \<Rightarrow> JobDetails \<Rightarrow> real" where
  "bwPaperCostOf paperData details =
     (case bwPaper paperData details of
        Some p \<Rightarrow> bwPressSheetsOf paperData details * costPerSheet p
      | None \<Rightarrow> 0)"

definition colorPaperCostOf :: "PaperStock list \<Rightarrow> JobDetails \<Rightarrow> real" where
  "colorPaperCostOf paperData details =
     (case colorPaper paperData details of
        Some p \<Rightarrow> colorPressSheetsOf paperData details * costPerSheet p
      | None \<Rightarrow> 0)"

definition coverPaperCostOf :: "PaperStock list \<Rightarrow> JobDetails \<Rightarrow> real" where
  "coverPaperCostOf paperData details =
     (if hasCover details then
        case coverPaper paperData details of
          Some p \<Rightarrow> coverPressSheetsOf paperData details * costPerSheet p
        | None \<Rightarrow> 0
      else 0)"

definition bwClicks :: "PaperStock list \<Rightarrow> JobDetails \<Rightarrow> real" where
  "bwClicks paperData details = bwPressSheetsOf paperData details * 2"

definition colorClicks :: "PaperStock list \<Rightarrow> JobDetails \<Rightarrow> real" where
  "colorClicks paperData details = colorPressSheetsOf paperData details * 2"

definition coverClicks :: "PaperStock list \<Rightarrow> JobDetails \<Rightarrow> real" where
  "coverClicks paperData details =
     (if hasCover details
      then coverPressSheetsOf paperData details
             * (if coverPrintsOnBothSides details then 2 else 1)
      else 0)"

definition coverClickCostOf :: "PaperStock list \<Rightarrow> JobDetails \<Rightarrow> real" where
  "coverClickCostOf paperData details =
     (if hasCover details then
        let coverClickRate =
              (if coverPrintColor details = COLOR then COLOR_CLICK_COST else BW_CLICK_COST)
        in coverClicks paperData details * coverClickRate
      else 0)"

definition laminationCostOf :: "JobDetails \<Rightarrow> real" where
  "laminationCostOf details =
     (if hasCover details \<and> laminationType details \<noteq> NoLamination \<and> quantity details > 0
      then (if laminationType details = GlossLamination then GLOSS_LAMINATE_COST_PER_COVER
            else MATTE_LAMINATE_COST_PER_COVER) * quantity details
      else 0)"

definition laborTimes :: "PaperStock list \<Rightarrow> JobDetails \<Rightarrow> LaborTimeBreakdown" where
  "laborTimes paperData details =
     (let totalPressSheets =
            bwPressSheetsOf paperData details + colorPressSheetsOf paperData details
              + coverPressSheetsOf paperData details;
          printingTime = totalPressSheets / PRINTING_SPEED_SPM;
          laminatingTime =
            (case coverPaper paperData details of
               Some cp \<Rightarrow>
                 if hasCover details \<and> laminationType details \<noteq> NoLamination
                    \<and> coverPressSheetsOf paperData details > 0
                 then
                   let sheetLengthMeters = parentHeight cp * 0.0254
                   in (coverPressSheetsOf paperData details * sheetLengthMeters)
                        / LAMINATING_SPEED_MPM
                 else 0
             | None \<Rightarrow> 0);
          bindingSetupMins =
            (if quantity details > 0 \<and> bindingMethod details \<noteq> NoBinding
             then (if bindingMethod details = PerfectBound then PERFECT_BINDER_SETUP_MINS
                   else SADDLE_STITCHER_SETUP_MINS)
             else 0);
          bindingTime =
            (if quantity details > 0 \<and> bindingMethod details \<noteq> NoBinding
             then (if bindingMethod details = PerfectBound
                   then quantity details / (PERFECT_BINDER_SPEED_BPH / 60)
                   else quantity details / (SADDLE_STITCHER_SPEED_BPH / 60))
                    * BINDING_INEFFICIENCY_FACTOR
             else 0);
          trimmingTime =
            (if quantity details > 0
             then TRIMMING_SETUP_MINS
                    + (of_int \<lceil>quantity details / TRIMMING_BOOKS_PER_CYCLE\<rceil>
                         * TRIMMING_CYCLE_TIME_MINS)
             else 0);
          setupTime = BASE_PREP_TIME_MINS + bindingSetupMins;
          totalProductionTimeMins =
            setupTime + printingTime + laminatingTime + bindingTime + trimmingTime;
          wastageTime = totalProductionTimeMins * WASTAGE_FACTOR
      in \<lparr>printingTimeMins = printingTime, laminatingTimeMins = laminatingTime,
           bindingTimeMins = bindingTime, setupTimeMins = setupTime,
           trimmingTimeMins = trimmingTime, wastageTimeMins = wastageTime\<rparr>)"

definition productionTimeHoursOf :: "PaperStock list \<Rightarrow> JobDetails \<Rightarrow> real" where
  "productionTimeHoursOf paperData details =
     (let t = laborTimes paperData details;
          totalProductionTimeMins =
            setupTimeMins t + printingTimeMins t + laminatingTimeMins t + bindingTimeMins t
              + trimmingTimeMins t;
          totalTimeMins = totalProductionTimeMins + wastageTimeMins t
      in totalTimeMins / 60)"

definition laborCostOf :: "PaperStock list \<Rightarrow> JobDetails \<Rightarrow> real" where
  "laborCostOf paperData details = productionTimeHoursOf paperData details * laborRate details"

definition subtotalOf :: "PaperStock list \<Rightarrow> JobDetails \<Rightarrow> real" where
  "subtotalOf paperData details =
     (bwPaperCostOf paperData details + colorPaperCostOf paperData details
        + coverPaperCostOf paperData details)
       + (bwClicks paperData details * BW_CLICK_COST
            + colorClicks paperData details * COLOR_CLICK_COST
            + coverClickCostOf paperData details)
       + laminationCostOf details + laborCostOf paperData details"

definition markupAmountOf :: "PaperStock list \<Rightarrow> JobDetails \<Rightarrow> real" where
  "markupAmountOf paperData details =
     subtotalOf paperData details * (markupPercent details / 100)"

definition bookWeightLbs :: "PaperStock list \<Rightarrow> JobDetails \<Rightarrow> real" where
  "bookWeightLbs paperData details =
     calculateSingleBookWeightLbs details (bwPaper paperData details)
       (colorPaper paperData details) (coverPaper paperData details)
       (spineWidth paperData details)"

definition shippingResult :: "PaperStock list \<Rightarrow> JobDetails \<Rightarrow> ShippingResult" where
  "shippingResult paperData details =
     (if calculateShippingFlag details
      then calculateShipping (quantity details) (finishedWidth details)
             (finishedHeight details) (spineWidth paperData details)
             (bookWeightLbs paperData details) (overrideShippingBoxName details)
      else \<lparr>shippingCost = Fin 0, breakdown = None\<rparr>)"

definition totalCostOf :: "PaperStock list \<Rightarrow> JobDetails \<Rightarrow> jsnum" where
  "totalCostOf paperData details =
     js_add (Fin (subtotalOf paperData details + markupAmountOf paperData details))
       (shippingCost (shippingResult paperData details))"

definition calculateCosts :: "PaperStock list \<Rightarrow> JobDetails \<Rightarrow> CostBreakdown" where
  "calculateCosts paperData details =
     (if bindingMethod details = SaddleStitch \<and> totalInteriorPages details > 0
         \<and> js_rem (totalInteriorPages details) 4 \<noteq> 0
      then createEmptyCostBreakdown
             (Some ''Saddle stitch requires the total interior page count to be a multiple of 4.'')
      else if bwPaper paperData details \<noteq> None \<and> bwImpositionOf paperData details = 0
                \<and> bwPages details > 0
      then createEmptyCostBreakdown
             (Some ''Finished size does not fit on the B/W interior paper.'')
      else if colorPaper paperData details \<noteq> None \<and> colorImpositionOf paperData details = 0
                \<and> colorPages details > 0
      then createEmptyCostBreakdown
             (Some ''Finished size does not fit on the Color interior paper.'')
      else if hasCover details \<and> coverPaper paperData details \<noteq> None
                \<and> coverImpositionOf paperData details = 0
      then createEmptyCostBreakdown
             (Some ''Full cover spread (including spine) does not fit on the selected cover paper.'')
      else
        \<lparr>error = None,
         bwPaperCost = bwPaperCostOf paperData details,
         colorPaperCost = colorPaperCostOf paperData details,
         coverPaperCost = coverPaperCostOf paperData details,
         bwClickCost = bwClicks paperData details * BW_CLICK_COST,
         colorClickCost = colorClicks paperData details * COLOR_CLICK_COST,
         coverClickCost = coverClickCostOf paperData details,
         laminationCost = laminationCostOf details,
         laborCost = laborCostOf paperData details,
         shippingCostTotal = shippingCost (shippingResult paperData details),
         subtotal = subtotalOf paperData details,
         markupAmount = markupAmountOf paperData details,
         totalCost = totalCostOf paperData details,
         pricePerUnit =
           (if quantity details > 0
            then js_div (totalCostOf paperData details) (Fin (quantity details))
            else Fin 0),
         bwPressSheets = bwPressSheetsOf paperData details,
         colorPressSheets = colorPressSheetsOf paperData details,
         coverPressSheets = coverPressSheetsOf paperData details,
         bwImposition = bwImpositionOf paperData details,
         colorImposition = colorImpositionOf paperData details,
         coverImposition = coverImpositionOf paperData details,
         totalClicks =
           bwClicks paperData details + colorClicks paperData details
             + coverClicks paperData details,
         productionTimeHours = productionTimeHoursOf paperData details,
         laborTimeBreakdown = laborTimes paperData details,
         shippingBreakdown = breakdown (shippingResult paperData details)\<rparr>)"

subsection \<open>Example catalogue\<close>

text \<open>
  Two stocks used to run the estimator on concrete jobs in the examples below. They are
  example data in the shape of \<open>PaperStock\<close>, not the contents of \<open>paperData\<close>.
\<close>

definition examplePaperData :: "PaperStock list" where
  "examplePaperData =
     [\<lparr>paper_name = ''80lb Text'', gsm = 120, paper_type = Uncoated, finish = ''Smooth'',
        parentWidth = 13, parentHeight = 19, sku = Some ''TEXT80'', costPerSheet = 0.05,
        usage = ''Interior''\<rparr>,
      \<lparr>paper_name = ''100lb Cover'', gsm = 270, paper_type = Coated, finish = ''Silk'',
        parentWidth = 13, parentHeight = 19, sku = Some ''COVER100'', costPerSheet = 0.25,
        usage = ''Cover''\<rparr>]"


text \<open>
  A perfect-bound job, 5.5 x 8.5 inches, black-and-white interior with a laminated
  colour cover; quantity, page count and the shipping switch are left open.
\<close>

definition bookJob :: "real \<Rightarrow> real \<Rightarrow> bool \<Rightarrow> JobDetails" where
  "bookJob q bw ship =
     \<lparr>bookTitle = ''Example'', quantity = q, finishedWidth = 5.5, finishedHeight = 8.5,
      bwPages = bw, bwPaperSku = Some ''TEXT80'',
      colorPages = 0, colorPaperSku = None,
      hasCover = True, coverPaperSku = Some ''COVER100'', coverPrintColor = COLOR,
      coverPrintsOnBothSides = False, laminationType = GlossLamination,
      bindingMethod = PerfectBound, laborRate = 50, markupPercent = 35, spoilagePercent = 5,
      calculateShippingFlag = ship, overrideShippingBoxName = None\<rparr>"


subsection \<open>Admissible jobs and raised jobs\<close>




section \<open>Loops, arrays and row reversal\<close>

lemma for_loop_foldl: "for_loop body i n s = foldl (\<lambda>s i. body i s) s [i..<n]"
proof (induction body i n s rule: for_loop.induct)
  case (1 body i n s)
  show ?case
  proof (cases "i < n")
    case True
    then show ?thesis
      using "1.IH" by (subst for_loop.simps) (simp add: upt_conv_Cons)
  next
    case False
    then show ?thesis by (subst for_loop.simps) simp
  qed
qed

lemma foldl_append_each: "foldl (\<lambda>acc i. acc @ F i) acc xs = acc @ concat (map F xs)"
  by (induction xs arbitrary: acc) simp_all

lemma for_loop_append: "for_loop (\<lambda>i acc. acc @ F i) i n acc = acc @ concat (map F [i..<n])"
  by (simp add: for_loop_foldl foldl_append_each)

lemma for_loop_push: "for_loop (\<lambda>i acc. acc @ [f i]) i n acc = acc @ map f [i..<n]"
  using for_loop_append [of "\<lambda>i. [f i]" i n acc] by (simp add: concat_map_singleton)

lemma ceil_div_ge: "0 < b \<Longrightarrow> a \<le> ceil_div a b * b"
proof -
  assume b: "0 < b"
  have x0: "0 \<le> real a / real b" by simp
  then have "- 1 < real a / real b" by linarith
  then have nn: "0 \<le> \<lceil>real a / real b\<rceil>" by simp
  have "real a / real b \<le> real_of_int \<lceil>real a / real b\<rceil>" by (rule le_of_int_ceiling)
  also have "\<dots> = real (ceil_div a b)" using nn by (simp add: ceil_div_def)
  finally have "real a \<le> real (ceil_div a b) * real b"
    using b by (simp add: pos_divide_le_eq)
  then have "real a \<le> real (ceil_div a b * b)" by simp
  then show ?thesis by (simp only: of_nat_le_iff)
qed

lemma ceil_div_pos: "0 < b \<Longrightarrow> 0 < a \<Longrightarrow> 0 < ceil_div a b"
  using ceil_div_ge [of b a] by (cases "ceil_div a b") auto


lemma for_loop_continue:
  "for_loop (\<lambda>i out. case g i of None \<Rightarrow> out | Some p \<Rightarrow> out @ [h i p]) i n out
     = out @ concat (map (\<lambda>i. case g i of None \<Rightarrow> [] | Some p \<Rightarrow> [h i p]) [i..<n])"
proof -
  have eq: "(\<lambda>i out. case g i of None \<Rightarrow> out | Some p \<Rightarrow> out @ [h i p])
          = (\<lambda>i out. out @ (case g i of None \<Rightarrow> [] | Some p \<Rightarrow> [h i p]))"
    by (intro ext) (simp split: option.split)
  show ?thesis unfolding eq by (rule for_loop_append)
qed

lemma find_concat_slots:
  assumes "\<And>i p. slotIndex (h i p) = i"
  shows "find (\<lambda>d. slotIndex d = j)
           (concat (map (\<lambda>i. case g i of None \<Rightarrow> [] | Some p \<Rightarrow> [h i p]) [a..<n]))
         = (if a \<le> j \<and> j < n then map_option (h j) (g j) else None)"
proof (induction "n - a" arbitrary: a)
  case 0
  then have le: "n \<le> a" by simp
  have e: "[a..<n] = []" using le by simp
  have ne: "\<not> (a \<le> j \<and> j < n)" using le by linarith
  show ?case unfolding e by (simp only: if_not_P [OF ne]) simp
next
  case (Suc d)
  then have an: "a < n" by simp
  let ?F = "\<lambda>i. case g i of None \<Rightarrow> [] | Some p \<Rightarrow> [h i p]"
  have IH: "find (\<lambda>d. slotIndex d = j) (concat (map ?F [Suc a..<n]))
         = (if Suc a \<le> j \<and> j < n then map_option (h j) (g j) else None)"
    using Suc by simp
  have split: "concat (map ?F [a..<n]) = ?F a @ concat (map ?F [Suc a..<n])"
    using an by (simp add: upt_conv_Cons)
  show ?case
  proof (cases "g a")
    case None
    then have "find (\<lambda>d. slotIndex d = j) (concat (map ?F [a..<n]))
                 = find (\<lambda>d. slotIndex d = j) (concat (map ?F [Suc a..<n]))"
      unfolding split by simp
    moreover have "a = j \<Longrightarrow> map_option (h j) (g j) = None" using None by simp
    ultimately show ?thesis unfolding IH using an by (cases "a = j") auto
  next
    case (Some p)
    then have "find (\<lambda>d. slotIndex d = j) (concat (map ?F [a..<n]))
                 = (if a = j then Some (h a p)
                    else find (\<lambda>d. slotIndex d = j) (concat (map ?F [Suc a..<n])))"
      unfolding split using assms by simp
    then show ?thesis unfolding IH using an Some by (cases "a = j") auto
  qed
qed

lemma pageInSlot_drawSheetSide:
  "pageInSlot (drawSheetSide ps isFront pages) j
     = (if j < slotsPerSheet ps then pages ! j else None)"
  unfolding pageInSlot_def drawSheetSide_def Let_def
  by (subst for_loop_continue, simp only: append_Nil, subst find_concat_slots)
     (auto simp: option.map_comp comp_def option.map_ident split: option.split)

lemma pageInSlot_drawBookletSide:
  "pageInSlot (drawBookletSide ps pages) j
     = (if j < length pages then pages ! j else None)"
  unfolding pageInSlot_def drawBookletSide_def Let_def
  by (subst for_loop_continue, simp only: append_Nil, subst find_concat_slots)
     (auto simp: option.map_comp comp_def option.map_ident split: option.split)

lemma array_set_step:
  "j < n \<Longrightarrow>
   array_set (map g [0..<j] @ replicate (n - j) None) j v
     = map (g(j := Some v)) [0..<Suc j] @ replicate (n - Suc j) None"
proof -
  assume jn: "j < n"
  then obtain d where d: "n - j = Suc d" by (metis Suc_diff_Suc)
  then have d': "n - Suc j = d" by simp
  show ?thesis
    unfolding array_set_def d d' using jn
    by (simp add: list_update_append)
qed

lemma array_set_loop:
  "j \<le> n \<Longrightarrow>
   for_loop (\<lambda>i a. if c i then array_set a i (f i) else a) j n
       (map (\<lambda>i. if c i then Some (f i) else None) [0..<j] @ replicate (n - j) None)
     = map (\<lambda>i. if c i then Some (f i) else None) [0..<n]"
proof (induction "n - j" arbitrary: j)
  case 0
  then show ?case by (subst for_loop.simps) simp
next
  case (Suc d)
  then have jn: "j < n" by simp
  let ?g = "\<lambda>i. if c i then Some (f i) else None"
  let ?b = "\<lambda>i a. if c i then array_set a i (f i) else a"
  have step: "?b j (map ?g [0..<j] @ replicate (n - j) None)
              = map ?g [0..<Suc j] @ replicate (n - Suc j) None"
  proof (cases "c j")
    case True
    then show ?thesis using array_set_step [OF jn, of ?g "f j"] by simp
  next
    case False
    obtain d where d: "n - j = Suc d" using jn by (metis Suc_diff_Suc)
    then have d': "n - Suc j = d" by simp
    show ?thesis unfolding d d' using False by simp
  qed
  have "for_loop ?b j n (map ?g [0..<j] @ replicate (n - j) None)
        = for_loop ?b (Suc j) n (?b j (map ?g [0..<j] @ replicate (n - j) None))"
    using jn by (subst for_loop.simps) (simp only: if_True)
  also have "\<dots> = for_loop ?b (Suc j) n (map ?g [0..<Suc j] @ replicate (n - Suc j) None)"
    by (simp only: step)
  also have "\<dots> = map ?g [0..<n]"
  proof (rule Suc.hyps(1))
    show "d = n - Suc j" using Suc.hyps(2) by simp
    show "Suc j \<le> n" using jn by simp
  qed
  finally show ?case .
qed


lemma nth_concat_uniform:
  "(\<And>ys. ys \<in> set xss \<Longrightarrow> length ys = n) \<Longrightarrow> r < length xss \<Longrightarrow> c < n
     \<Longrightarrow> concat xss ! (r * n + c) = xss ! r ! c"
proof (induction xss arbitrary: r)
  case Nil
  then show ?case by simp
next
  case (Cons ys xss)
  have len: "length ys = n" using Cons.prems(1) by simp
  show ?case
  proof (cases r)
    case 0
    then show ?thesis using Cons.prems(3) len by (simp add: nth_append)
  next
    case (Suc r')
    have "concat xss ! (r' * n + c) = xss ! r' ! c"
      using Cons.prems Suc by (intro Cons.IH) auto
    moreover have "Suc r' * n + c = n + (r' * n + c)" by simp
    ultimately show ?thesis using Suc len
      by (simp add: nth_append del: mult_Suc)
  qed
qed

lemma length_concat_uniform:
  "(\<And>ys. ys \<in> set xss \<Longrightarrow> length ys = n) \<Longrightarrow> length (concat xss) = length xss * n"
  by (induction xss) auto

lemma reverseRows_concat:
  "reverseRows cols rws xs = concat (map (\<lambda>row. rev (take cols (drop (row * cols) xs))) [0..<rws])"
  unfolding reverseRows_def Let_def
  using for_loop_append [of "\<lambda>row. rev (take ((row + 1) * cols - row * cols) (drop (row * cols) xs))" 0 rws "[]"]
  by simp

lemma row_bound:
  assumes "length xs = cols * rws" "row < rws"
  shows "row * cols + cols \<le> length xs"
proof -
  have "Suc row \<le> rws" using assms(2) by simp
  then have "Suc row * cols \<le> rws * cols" by (rule mult_le_mono1)
  then show ?thesis using assms(1) by (simp add: mult.commute)
qed

lemma reverseRows_block_length:
  assumes "length xs = cols * rws" "row < rws"
  shows "length (rev (take cols (drop (row * cols) xs))) = cols"
  using row_bound [OF assms] by simp

lemma length_reverseRows:
  "length xs = cols * rws \<Longrightarrow> length (reverseRows cols rws xs) = cols * rws"
proof -
  assume len: "length xs = cols * rws"
  have "length (concat (map (\<lambda>row. rev (take cols (drop (row * cols) xs))) [0..<rws]))
          = length (map (\<lambda>row. rev (take cols (drop (row * cols) xs))) [0..<rws]) * cols"
  proof (rule length_concat_uniform)
    fix ys assume "ys \<in> set (map (\<lambda>row. rev (take cols (drop (row * cols) xs))) [0..<rws])"
    then obtain row where "row < rws" and "ys = rev (take cols (drop (row * cols) xs))"
      by auto
    then show "length ys = cols" using reverseRows_block_length [OF len] by blast
  qed
  then show ?thesis by (simp add: reverseRows_concat mult.commute)
qed

lemma reverseRows_nth:
  assumes len: "length xs = cols * rws" and r: "row < rws" and c: "col < cols"
  shows "reverseRows cols rws xs ! (row * cols + col) = xs ! (row * cols + (cols - 1 - col))"
proof -
  let ?blocks = "map (\<lambda>row. rev (take cols (drop (row * cols) xs))) [0..<rws]"
  have "concat ?blocks ! (row * cols + col) = ?blocks ! row ! col"
  proof (rule nth_concat_uniform)
    fix ys assume "ys \<in> set ?blocks"
    then obtain row where "row < rws" and "ys = rev (take cols (drop (row * cols) xs))"
      by auto
    then show "length ys = cols" using reverseRows_block_length [OF len] by blast
  next
    show "row < length ?blocks" using r by simp
  next
    show "col < cols" by (rule c)
  qed
  also have "?blocks ! row = rev (take cols (drop (row * cols) xs))" using r by simp
  also have "rev (take cols (drop (row * cols) xs)) ! col
               = take cols (drop (row * cols) xs) ! (cols - Suc col)"
    using reverseRows_block_length [OF len r] c by (simp add: rev_nth)
  also have "\<dots> = xs ! (row * cols + (cols - 1 - col))"
  proof -
    have "row * cols + cols \<le> length xs" by (rule row_bound [OF len r])
    then show ?thesis using c by simp
  qed
  finally show ?thesis by (simp only: reverseRows_concat)
qed


lemma array_set_loop0:
  "for_loop (\<lambda>i a. if c i then array_set a i (f i) else a) 0 n (replicate n None)
     = map (\<lambda>i. if c i then Some (f i) else None) [0..<n]"
  using array_set_loop [of 0 n c f] by simp

lemma array_set_loop_all:
  "for_loop (\<lambda>i a. array_set a i (f i)) 0 n (replicate n None) = map (\<lambda>i. Some (f i)) [0..<n]"
  using array_set_loop0 [of "\<lambda>i. True" f n] by simp

lemma for_loop_push0: "for_loop (\<lambda>i acc. acc @ [f i]) 0 n [] = map f [0..<n]"
  by (simp add: for_loop_push)

lemma length_pagesForFront:
  "impositionType ps \<noteq> Booklet \<Longrightarrow> length (pagesForFront ps P k) = columns ps * rows ps"
  by (simp add: pagesForFront_def Let_def slotsPerSheet_def for_loop_push0)

lemma length_pagesForBack:
  "impositionType ps \<noteq> Booklet \<Longrightarrow> length (pagesForBack ps P k) = columns ps * rows ps"
  by (simp add: pagesForBack_def Let_def slotsPerSheet_def for_loop_push0)

lemma mapping_front_eq:
  assumes "impositionType ps \<noteq> Booklet" "0 < P"
  shows "getPageMappingForSheet k True (impositionType ps) (columns ps) (rows ps) (isDuplex ps) P
           = pagesForFront ps P k"
proof (cases "columns ps * rows ps = 0")
  case True
  then show ?thesis using assms
    by (simp add: getPageMappingForSheet_def pagesForFront_def Let_def slotsPerSheet_def
        for_loop_push0)
next
  case False
  show ?thesis
  proof (cases "impositionType ps")
    case Stack
    then show ?thesis using False assms
      by (simp add: getPageMappingForSheet_def pagesForFront_def Let_def slotsPerSheet_def
        for_loop_push0 array_set_loop0)
  next
    case Repeat
    then show ?thesis using False assms
      by (simp add: getPageMappingForSheet_def pagesForFront_def Let_def slotsPerSheet_def
        for_loop_push0 array_set_loop_all map_replicate_const)
  next
    case CollateCut
    then show ?thesis using False assms
      by (simp add: getPageMappingForSheet_def pagesForFront_def Let_def slotsPerSheet_def
        for_loop_push0 array_set_loop0)
  next
    case Booklet
    then show ?thesis using assms by simp
  qed
qed


lemma mapping_back_eq:
  assumes "impositionType ps \<noteq> Booklet" "0 < P" "isDuplex ps"
  shows "getPageMappingForSheet k False (impositionType ps) (columns ps) (rows ps) (isDuplex ps) P
           = pagesForBackToRender ps P k"
proof (cases "columns ps * rows ps = 0")
  case True
  then have "columns ps \<le> 1 \<or> rows ps = 0" by auto
  then show ?thesis using True assms
    by (auto simp add: getPageMappingForSheet_def pagesForBack_def pagesForBackToRender_def
        Let_def slotsPerSheet_def for_loop_push0 reverseRows_concat)
next
  case False
  show ?thesis
  proof (cases "impositionType ps")
    case Stack
    then show ?thesis using False assms
      by (simp add: getPageMappingForSheet_def pagesForBack_def pagesForBackToRender_def
        Let_def slotsPerSheet_def for_loop_push0 array_set_loop0 cong: if_cong)
  next
    case Repeat
    then show ?thesis using False assms
      by (simp add: getPageMappingForSheet_def pagesForBack_def pagesForBackToRender_def
        Let_def slotsPerSheet_def for_loop_push0 array_set_loop_all map_replicate_const)
  next
    case CollateCut
    then show ?thesis using False assms
      by (simp add: getPageMappingForSheet_def pagesForBack_def pagesForBackToRender_def
        Let_def slotsPerSheet_def for_loop_push0 array_set_loop0 cong: if_cong)
  next
    case Booklet
    then show ?thesis using assms by simp
  qed
qed

lemma mapping_booklet_front:
  assumes "0 < cols * rws" "0 < P" "i < 2"
  shows "array_get (getPageMappingForSheet k True Booklet cols rws d P) i
           = bookletPagesForFront P k ! i"
proof -
  obtain n where n: "cols * rws = Suc n" using assms(1) by (cases "cols * rws") auto
  have i: "i = 0 \<or> i = 1" using assms(3) by auto
  show ?thesis using assms(2) i
    by (cases n)
       (auto simp: getPageMappingForSheet_def bookletPagesForFront_def Let_def n array_get_def
          array_set_def inputPages_def paddedPageCount_def pageIndexFL_def pageIndexFR_def
          nth_Cons')
qed

lemma mapping_booklet_back:
  assumes "0 < cols * rws" "0 < P" "i < 2"
  shows "array_get (getPageMappingForSheet k False Booklet cols rws d P) i
           = bookletPagesForBack P k ! i"
proof -
  obtain n where n: "cols * rws = Suc n" using assms(1) by (cases "cols * rws") auto
  have i: "i = 0 \<or> i = 1" using assms(3) by auto
  show ?thesis using assms(2) i
    by (cases n)
       (auto simp: getPageMappingForSheet_def bookletPagesForBack_def Let_def n array_get_def
          array_set_def inputPages_def paddedPageCount_def pageIndexBL_def pageIndexBR_def
          nth_Cons')
qed


lemma pageInSlot_booklet_front:
  "impositionType ps = Booklet \<Longrightarrow> i < 2 \<Longrightarrow>
   pageInSlot (frontSide (imposeSheet ps P k)) i = bookletPagesForFront P k ! i"
  by (simp add: imposeSheet_def pageInSlot_drawBookletSide bookletPagesForFront_def Let_def)

lemma pageInSlot_booklet_back:
  "impositionType ps = Booklet \<Longrightarrow> i < 2 \<Longrightarrow>
   \<exists>bs. backSide (imposeSheet ps P k) = Some bs
        \<and> pageInSlot bs i = bookletPagesForBack P k ! i"
  by (simp add: imposeSheet_def pageInSlot_drawBookletSide bookletPagesForBack_def Let_def)

section \<open>The engine and the preview, slot by slot\<close>

lemma slot_index_bound: "(row::nat) < rws \<Longrightarrow> col < cols \<Longrightarrow> row * cols + col < cols * rws"
proof -
  assume r: "row < rws" and c: "col < cols"
  have "row * cols + col < row * cols + cols" using c by simp
  also have "\<dots> = Suc row * cols" by simp
  also have "\<dots> \<le> rws * cols" using r by (intro mult_le_mono1) simp
  finally show ?thesis by (simp add: mult.commute)
qed

lemma pagesForBackToRender_nth:
  assumes "impositionType ps \<noteq> Booklet" "row < rows ps" "col < columns ps"
  shows "pagesForBackToRender ps P k ! (row * columns ps + col)
           = pagesForBack ps P k
               ! (row * columns ps
                   + (if (impositionType ps = Stack \<or> impositionType ps = CollateCut)
                         \<and> columns ps > 1
                      then columns ps - 1 - col else col))"
  using reverseRows_nth [OF length_pagesForBack [OF assms(1)] assms(2,3), of P k]
  by (simp add: pagesForBackToRender_def Let_def)

lemma length_pagesForBackToRender:
  "impositionType ps \<noteq> Booklet \<Longrightarrow> length (pagesForBackToRender ps P k) = columns ps * rows ps"
  by (simp add: pagesForBackToRender_def Let_def length_reverseRows length_pagesForBack)

lemma blank_back_nth:
  assumes "impositionType ps \<noteq> Booklet"
    and "\<not> list_ex (\<lambda>p. p \<noteq> None) (pagesForBack ps P k)" and "j < columns ps * rows ps"
  shows "pagesForBack ps P k ! j = None"
proof -
  have "pagesForBack ps P k ! j \<in> set (pagesForBack ps P k)"
    using assms(3) length_pagesForBack [OF assms(1), of P k] by simp
  then show ?thesis using assms(2) by (auto simp: list_ex_iff)
qed

lemma blank_back_render_nth:
  assumes "impositionType ps \<noteq> Booklet"
    and "\<not> list_ex (\<lambda>p. p \<noteq> None) (pagesForBack ps P k)" and "j < columns ps * rows ps"
  shows "pagesForBackToRender ps P k ! j = None"
proof -
  have pos: "0 < columns ps" using assms(3) by (cases "columns ps") auto
  define row where "row = j div columns ps"
  define col where "col = j mod columns ps"
  have j: "j = row * columns ps + col" by (simp add: row_def col_def)
  have c: "col < columns ps" using pos by (simp add: col_def)
  have r: "row < rows ps"
    using assms(3) pos by (simp add: row_def less_mult_imp_div_less mult.commute)
  let ?c' = "if (impositionType ps = Stack \<or> impositionType ps = CollateCut) \<and> columns ps > 1
             then columns ps - 1 - col else col"
  have "?c' < columns ps" using c by auto
  then have "row * columns ps + ?c' < columns ps * rows ps" by (rule slot_index_bound [OF r])
  then have "pagesForBack ps P k ! (row * columns ps + ?c') = None"
    by (rule blank_back_nth [OF assms(1,2)])
  then show ?thesis
    unfolding j using pagesForBackToRender_nth [OF assms(1) r c, of P k] by simp
qed

lemma backSide_slot:
  assumes "impositionType ps \<noteq> Booklet" "isDuplex ps"
  shows "\<exists>bs. backSide (imposeSheet ps P k) = Some bs
           \<and> (\<forall>j. pageInSlot bs j
                 = (if j < columns ps * rows ps then pagesForBackToRender ps P k ! j else None))"
proof (cases "list_ex (\<lambda>p. p \<noteq> None) (pagesForBack ps P k)")
  case True
  then show ?thesis using assms
    by (simp add: imposeSheet_def pageInSlot_drawSheetSide slotsPerSheet_def)
next
  case False
  have "pageInSlot [] j = None" for j by (simp add: pageInSlot_def)
  then show ?thesis using assms False blank_back_render_nth [OF assms(1) False]
    by (simp add: imposeSheet_def)
qed

lemma frontSide_slot:
  assumes "impositionType ps \<noteq> Booklet"
  shows "pageInSlot (frontSide (imposeSheet ps P k)) j
           = (if j < columns ps * rows ps then pagesForFront ps P k ! j else None)"
  using assms by (simp add: imposeSheet_def pageInSlot_drawSheetSide slotsPerSheet_def)


lemma pagesForFront_Stack_nth:
  assumes "impositionType ps = Stack" "i < columns ps * rows ps"
  shows "pagesForFront ps P k ! i
           = (let pageIndex = k * (columns ps * rows ps) * (if isDuplex ps then 2 else 1)
                                + (if isDuplex ps then i * 2 else i)
              in if pageIndex < P then Some pageIndex else None)"
  using assms by (simp add: pagesForFront_def Let_def slotsPerSheet_def for_loop_push0)

lemma pagesForBack_Stack_nth:
  assumes "impositionType ps = Stack" "i < columns ps * rows ps"
  shows "pagesForBack ps P k ! i
           = (let pageIndex = k * (columns ps * rows ps) * 2 + (i * 2) + 1
              in if pageIndex < P then Some pageIndex else None)"
  using assms by (simp add: pagesForBack_def Let_def slotsPerSheet_def for_loop_push0)

text \<open>
  Claim C3. Stack mode, \<open>S = columns * rows\<close> slots per sheet. With duplex on and
  \<open>base = k * S * 2\<close>, front slot \<open>i\<close> of sheet \<open>k\<close> receives input page \<open>base + 2i\<close>, the
  assignment computed for the back gives slot \<open>i\<close> page \<open>base + 2i + 1\<close>, and with more than
  one column the back is placed with every row reversed (work-and-turn): slot
  \<open>(row, col)\<close> shows what was computed for \<open>(row, columns - 1 - col)\<close>. With duplex off,
  slot \<open>i\<close> of sheet \<open>k\<close> receives page \<open>k * S + i\<close> and no back page is produced. A page
  index at or beyond the page count leaves the slot blank.
\<close>

theorem stack_pagination:
  assumes "impositionType ps = Stack" and "i < columns ps * rows ps"
  shows "(isDuplex ps \<longrightarrow>
            pageInSlot (frontSide (imposeSheet ps P k)) i
              = (if k * (columns ps * rows ps) * 2 + 2 * i < P
                 then Some (k * (columns ps * rows ps) * 2 + 2 * i) else None)
          \<and> pagesForBack ps P k ! i
              = (if k * (columns ps * rows ps) * 2 + 2 * i + 1 < P
                 then Some (k * (columns ps * rows ps) * 2 + 2 * i + 1) else None)
          \<and> (\<exists>bs. backSide (imposeSheet ps P k) = Some bs
                \<and> (\<forall>row < rows ps. \<forall>col < columns ps.
                      pageInSlot bs (row * columns ps + col)
                        = pagesForBack ps P k
                            ! (row * columns ps
                                + (if columns ps > 1 then columns ps - 1 - col else col)))))
       \<and> (\<not> isDuplex ps \<longrightarrow>
            pageInSlot (frontSide (imposeSheet ps P k)) i
              = (if k * (columns ps * rows ps) + i < P
                 then Some (k * (columns ps * rows ps) + i) else None)
          \<and> backSide (imposeSheet ps P k) = None)"
proof -
  have nb: "impositionType ps \<noteq> Booklet" using assms(1) by simp
  have front: "pageInSlot (frontSide (imposeSheet ps P k)) i
       = (let pageIndex = k * (columns ps * rows ps) * (if isDuplex ps then 2 else 1)
                                + (if isDuplex ps then i * 2 else i)
              in if pageIndex < P then Some pageIndex else None)"
    using frontSide_slot [OF nb, of P k i] assms(2) pagesForFront_Stack_nth [OF assms, of P k]
    by simp
  have bk: "pagesForBack ps P k ! i
              = (if k * (columns ps * rows ps) * 2 + 2 * i + 1 < P
                 then Some (k * (columns ps * rows ps) * 2 + 2 * i + 1) else None)"
    using pagesForBack_Stack_nth [OF assms, of P k] by (simp add: Let_def mult.commute)
  have render: "\<exists>bs. backSide (imposeSheet ps P k) = Some bs
                \<and> (\<forall>row < rows ps. \<forall>col < columns ps.
                      pageInSlot bs (row * columns ps + col)
                        = pagesForBack ps P k
                            ! (row * columns ps
                                + (if columns ps > 1 then columns ps - 1 - col else col)))"
    if d: "isDuplex ps"
  proof -
    obtain bs where bs: "backSide (imposeSheet ps P k) = Some bs"
      and sl: "\<And>j. pageInSlot bs j
                 = (if j < columns ps * rows ps then pagesForBackToRender ps P k ! j else None)"
      using backSide_slot [OF nb d, of P k] by blast
    have "pageInSlot bs (row * columns ps + col)
            = pagesForBack ps P k
                ! (row * columns ps + (if columns ps > 1 then columns ps - 1 - col else col))"
      if r: "row < rows ps" and c: "col < columns ps" for row col
      using sl [of "row * columns ps + col"] slot_index_bound [OF r c]
        pagesForBackToRender_nth [OF nb r c, of P k] assms(1)
      by simp
    then show ?thesis using bs by blast
  qed
  have simplex: "backSide (imposeSheet ps P k) = None" if "\<not> isDuplex ps"
    using that assms(1) by (simp add: imposeSheet_def)
  show ?thesis
    using front bk render simplex by (simp add: Let_def mult.commute)
qed


theorem stack_pagination_witness:
  "pageInSlot (frontSide (imposeSheet
       \<lparr>columns = 2, rows = 1, impositionType = Stack, isDuplex = True,
        readingDirection = Ltr, showSpineMarks = False,
        alternateRotationType = NoRotation\<rparr> 8 1)) 0 = Some 4
   \<and> pagesForBack \<lparr>columns = 2, rows = 1, impositionType = Stack, isDuplex = True,
        readingDirection = Ltr, showSpineMarks = False,
        alternateRotationType = NoRotation\<rparr> 8 1 ! 0 = Some 5
   \<and> (\<exists>bs. backSide (imposeSheet
       \<lparr>columns = 2, rows = 1, impositionType = Stack, isDuplex = True,
        readingDirection = Ltr, showSpineMarks = False,
        alternateRotationType = NoRotation\<rparr> 8 1) = Some bs
         \<and> pageInSlot bs 0 = Some 7 \<and> pageInSlot bs 1 = Some 5)"
proof -
  let ?ps = "\<lparr>columns = 2, rows = 1, impositionType = Stack, isDuplex = True,
        readingDirection = Ltr, showSpineMarks = False,
        alternateRotationType = NoRotation\<rparr>"
  have a: "impositionType ?ps = Stack" and b: "(0::nat) < columns ?ps * rows ?ps"
    and d: "isDuplex ?ps" by simp_all
  note th = stack_pagination [OF a b, of 8 1]
  have f: "pageInSlot (frontSide (imposeSheet ?ps 8 1)) 0 = Some 4"
    and k0: "pagesForBack ?ps 8 1 ! 0 = Some 5"
    using th by simp_all
  have k1: "pagesForBack ?ps 8 1 ! 1 = Some 7"
    using pagesForBack_Stack_nth [of ?ps 1 8 1] by simp
  obtain bs where bs: "backSide (imposeSheet ?ps 8 1) = Some bs"
    and sl: "\<forall>row < rows ?ps. \<forall>col < columns ?ps.
               pageInSlot bs (row * columns ?ps + col)
                 = pagesForBack ?ps 8 1
                     ! (row * columns ?ps
                         + (if columns ?ps > 1 then columns ?ps - 1 - col else col))"
    using th d by blast
  have "pageInSlot bs 0 = Some 7" using sl [rule_format, of 0 0] k1 by simp
  moreover have "pageInSlot bs 1 = Some 5" using sl [rule_format, of 0 1] k0 by simp
  ultimately show ?thesis using f k0 bs by blast
qed

lemma drawBookletSide_eq:
  "drawBookletSide ps pages
     = concat (map (\<lambda>i. case pages ! i of None \<Rightarrow> []
                 | Some p \<Rightarrow> [\<lparr>slotIndex = i, pageIndex = p, rotated = False,
                     isSpineOnLeft =
                       (if showSpineMarks ps
                        then Some (if readingDirection ps = Ltr then i \<noteq> 0 else i = 0)
                        else None)\<rparr>]) [0..<length pages])"
  unfolding drawBookletSide_def Let_def
  by (subst for_loop_continue) simp

lemma drawBookletSide_rtl_pages:
  "map (\<lambda>d. (slotIndex d, pageIndex d)) (drawBookletSide (ps\<lparr>readingDirection := Rtl\<rparr>) pages)
     = map (\<lambda>d. (slotIndex d, pageIndex d)) (drawBookletSide (ps\<lparr>readingDirection := Ltr\<rparr>) pages)"
  unfolding drawBookletSide_eq map_concat map_map
  by (intro arg_cong [where f = concat] map_cong refl) (simp split: option.split)

lemma drawBookletSide_rtl_spine:
  "map isSpineOnLeft (drawBookletSide (ps\<lparr>readingDirection := Rtl\<rparr>) pages)
     = map (map_option Not \<circ> isSpineOnLeft)
         (drawBookletSide (ps\<lparr>readingDirection := Ltr\<rparr>) pages)"
  unfolding drawBookletSide_eq map_concat map_map
  by (intro arg_cong [where f = concat] map_cong refl) (simp split: option.split)

text \<open>
  Claim C4, as amended. In booklet mode the reading direction does not change which
  input page is drawn in which slot, on either side of any sheet: right-to-left draws
  the same pages in the same slots as left-to-right. It only swaps the side that carries
  the spine marking (left page: spine on its right under left-to-right, on its left
  under right-to-left, and the reverse for the right page).
\<close>

theorem booklet_rtl_keeps_pages:
  assumes "impositionType ps = Booklet"
  shows "map (\<lambda>d. (slotIndex d, pageIndex d))
             (frontSide (imposeSheet (ps\<lparr>readingDirection := Rtl\<rparr>) P k))
           = map (\<lambda>d. (slotIndex d, pageIndex d))
               (frontSide (imposeSheet (ps\<lparr>readingDirection := Ltr\<rparr>) P k))
       \<and> map (\<lambda>d. (slotIndex d, pageIndex d))
             (the (backSide (imposeSheet (ps\<lparr>readingDirection := Rtl\<rparr>) P k)))
           = map (\<lambda>d. (slotIndex d, pageIndex d))
               (the (backSide (imposeSheet (ps\<lparr>readingDirection := Ltr\<rparr>) P k)))
       \<and> map isSpineOnLeft (frontSide (imposeSheet (ps\<lparr>readingDirection := Rtl\<rparr>) P k))
           = map (map_option Not \<circ> isSpineOnLeft)
               (frontSide (imposeSheet (ps\<lparr>readingDirection := Ltr\<rparr>) P k))
       \<and> map isSpineOnLeft (the (backSide (imposeSheet (ps\<lparr>readingDirection := Rtl\<rparr>) P k)))
           = map (map_option Not \<circ> isSpineOnLeft)
               (the (backSide (imposeSheet (ps\<lparr>readingDirection := Ltr\<rparr>) P k)))"
  using assms
  by (simp add: imposeSheet_def drawBookletSide_rtl_pages drawBookletSide_rtl_spine)

theorem booklet_rtl_keeps_pages_witness:
  "map (\<lambda>d. (slotIndex d, pageIndex d))
       (frontSide (imposeSheet \<lparr>columns = 2, rows = 1, impositionType = Booklet, isDuplex = True,
          readingDirection = Rtl, showSpineMarks = True,
          alternateRotationType = NoRotation\<rparr> 8 0))
     = [(0, 7), (1, 0)]
   \<and> map isSpineOnLeft
       (frontSide (imposeSheet \<lparr>columns = 2, rows = 1, impositionType = Booklet, isDuplex = True,
          readingDirection = Rtl, showSpineMarks = True,
          alternateRotationType = NoRotation\<rparr> 8 0))
     = [Some True, Some False]"
proof -
  let ?ps = "\<lparr>columns = 2, rows = 1, impositionType = Booklet, isDuplex = True,
          readingDirection = Ltr, showSpineMarks = True,
          alternateRotationType = NoRotation\<rparr>"
  have p: "paddedPageCount 8 = 8" by (simp add: paddedPageCount_def ceil_div_def)
  have l: "frontSide (imposeSheet ?ps 8 0)
             = [\<lparr>slotIndex = 0, pageIndex = 7, rotated = False, isSpineOnLeft = Some False\<rparr>,
                \<lparr>slotIndex = 1, pageIndex = 0, rotated = False, isSpineOnLeft = Some True\<rparr>]"
    by (simp add: imposeSheet_def drawBookletSide_eq bookletPagesForFront_def p inputPages_def
        pageIndexFL_def pageIndexFR_def upt_rec)
  have a: "impositionType ?ps = Booklet" by simp
  show ?thesis
    using booklet_rtl_keeps_pages [OF a, of 8 0] l by simp
qed

text \<open>
  The claim as first stated (the left and the right page of a spread are swapped under
  right-to-left) fails on the first sheet of an 8-page booklet: both directions put
  page 7 in slot 0 and page 0 in slot 1.
\<close>

theorem booklet_rtl_swap_counterexample:
  "\<not> (pageInSlot (frontSide (imposeSheet \<lparr>columns = 2, rows = 1, impositionType = Booklet,
            isDuplex = True, readingDirection = Rtl, showSpineMarks = True,
            alternateRotationType = NoRotation\<rparr> 8 0)) 0
        = pageInSlot (frontSide (imposeSheet \<lparr>columns = 2, rows = 1, impositionType = Booklet,
            isDuplex = True, readingDirection = Ltr, showSpineMarks = True,
            alternateRotationType = NoRotation\<rparr> 8 0)) 1
      \<and> pageInSlot (frontSide (imposeSheet \<lparr>columns = 2, rows = 1, impositionType = Booklet,
            isDuplex = True, readingDirection = Rtl, showSpineMarks = True,
            alternateRotationType = NoRotation\<rparr> 8 0)) 1
        = pageInSlot (frontSide (imposeSheet \<lparr>columns = 2, rows = 1, impositionType = Booklet,
            isDuplex = True, readingDirection = Ltr, showSpineMarks = True,
            alternateRotationType = NoRotation\<rparr> 8 0)) 0)"
proof -
  have p: "paddedPageCount 8 = 8" by (simp add: paddedPageCount_def ceil_div_def)
  show ?thesis
    by (simp add: imposeSheet_def pageInSlot_drawBookletSide bookletPagesForFront_def p
        inputPages_def pageIndexFL_def pageIndexFR_def)
qed


lemma array_get_set:
  "array_get (array_set a j v) i
     = (if i = j then Some v else array_get a i)"
  by (auto simp: array_get_def array_set_def nth_append nth_Cons')

lemma array_get_replicate_None [simp]: "array_get (replicate n None) i = None"
  by (simp add: array_get_def)

lemma mapping_booklet_all:
  assumes "0 < cols * rws" "0 < P"
  shows "array_get (getPageMappingForSheet k isFront Booklet cols rws d P) i
           = (if i < 2
              then (if isFront then bookletPagesForFront P k else bookletPagesForBack P k) ! i
              else None)"
proof (cases "i < 2")
  case True
  then show ?thesis
    using mapping_booklet_front [OF assms True, of k d] mapping_booklet_back [OF assms True, of k d]
    by (cases isFront) simp_all
next
  case False
  then have "i \<noteq> 0" "i \<noteq> 1" by auto
  then show ?thesis using assms False
    by (simp add: getPageMappingForSheet_def Let_def array_get_set)
qed

text \<open>
  Claim C10. For every sheet index, imposition type, grid, duplex flag and page count
  \<open>P > 0\<close> (the engine rejects an empty document), the preview's
  \<open>getPageMappingForSheet\<close>, row reversal included, names for every slot of the front the
  page that the engine's placement loop draws there, and likewise for the back whenever
  the engine produces a back page (in duplex and in booklet mode). In booklet mode the
  mapping is called with a grid of at least one slot.
\<close>

theorem preview_mapping_matches_engine:
  assumes "0 < P" and "impositionType ps = Booklet \<longrightarrow> 0 < columns ps * rows ps"
  shows "(\<forall>i. pageInSlot (frontSide (imposeSheet ps P k)) i
                = array_get (getPageMappingForSheet k True (impositionType ps) (columns ps)
                               (rows ps) (isDuplex ps) P) i)
       \<and> (\<forall>bs. backSide (imposeSheet ps P k) = Some bs \<longrightarrow>
             (\<forall>i. pageInSlot bs i
                    = array_get (getPageMappingForSheet k False (impositionType ps) (columns ps)
                                   (rows ps) (isDuplex ps) P) i))
       \<and> (backSide (imposeSheet ps P k) = None
            \<longleftrightarrow> impositionType ps \<noteq> Booklet \<and> \<not> isDuplex ps)"
proof (cases "impositionType ps = Booklet")
  case True
  then have pos: "0 < columns ps * rows ps" using assms(2) by simp
  have f: "pageInSlot (frontSide (imposeSheet ps P k)) i
             = (if i < 2 then bookletPagesForFront P k ! i else None)" for i
    using True by (simp add: imposeSheet_def pageInSlot_drawBookletSide bookletPagesForFront_def)
  have b: "backSide (imposeSheet ps P k)
             = Some (drawBookletSide ps (bookletPagesForBack P k))"
    using True by (simp add: imposeSheet_def)
  have b': "pageInSlot (drawBookletSide ps (bookletPagesForBack P k)) i
             = (if i < 2 then bookletPagesForBack P k ! i else None)" for i
    by (simp add: pageInSlot_drawBookletSide bookletPagesForBack_def)
  show ?thesis
    using True f b b' mapping_booklet_all [OF pos assms(1), of k _ "isDuplex ps"]
    by simp
next
  case False
  have f: "pageInSlot (frontSide (imposeSheet ps P k)) i
             = array_get (pagesForFront ps P k) i" for i
    using frontSide_slot [OF False, of P k i] length_pagesForFront [OF False, of P k]
    by (simp add: array_get_def)
  have m: "getPageMappingForSheet k True (impositionType ps) (columns ps) (rows ps) (isDuplex ps) P
             = pagesForFront ps P k"
    by (rule mapping_front_eq [OF False assms(1)])
  show ?thesis
  proof (cases "isDuplex ps")
    case True
    obtain bs where bs: "backSide (imposeSheet ps P k) = Some bs"
      and sl: "\<And>j. pageInSlot bs j
                 = (if j < columns ps * rows ps then pagesForBackToRender ps P k ! j else None)"
      using backSide_slot [OF False True, of P k] by blast
    have "pageInSlot bs i = array_get (pagesForBackToRender ps P k) i" for i
      using sl [of i] length_pagesForBackToRender [OF False, of P k] by (simp add: array_get_def)
    then show ?thesis
      using f m bs True mapping_back_eq [OF False assms(1) True, of k] by simp
  next
    case d: False
    then have "backSide (imposeSheet ps P k) = None"
      using False by (simp add: imposeSheet_def)
    then show ?thesis using f m False d by simp
  qed
qed

lemma pagesForFront_CollateCut_nth:
  assumes "impositionType ps = CollateCut" "i < columns ps * rows ps"
  shows "pagesForFront ps P k ! i
           = (let m = (if isDuplex ps then 2 else 1);
                  pagesPerLogicalStack = ceil_div P (columns ps * rows ps);
                  totalSheetsForMode =
                    (if isDuplex ps then ceil_div pagesPerLogicalStack 2
                     else pagesPerLogicalStack);
                  pageToEmbedIndex = k * m + i * (totalSheetsForMode * m)
              in if pageToEmbedIndex < P then Some pageToEmbedIndex else None)"
  using assms by (simp add: pagesForFront_def Let_def slotsPerSheet_def for_loop_push0)

lemma pagesForBack_CollateCut_nth:
  assumes "impositionType ps = CollateCut" "i < columns ps * rows ps"
  shows "pagesForBack ps P k ! i
           = (let pagesPerLogicalStack = ceil_div P (columns ps * rows ps);
                  totalSheetsForMode = ceil_div pagesPerLogicalStack 2;
                  pageToEmbedIndex = (k * 2) + 1 + i * (totalSheetsForMode * 2)
              in if pageToEmbedIndex < P then Some pageToEmbedIndex else None)"
  using assms by (simp add: pagesForBack_def Let_def slotsPerSheet_def for_loop_push0)

theorem preview_mapping_matches_engine_witness:
  "pageInSlot (frontSide (imposeSheet
       \<lparr>columns = 2, rows = 1, impositionType = CollateCut, isDuplex = True,
        readingDirection = Ltr, showSpineMarks = False,
        alternateRotationType = NoRotation\<rparr> 8 0)) 1 = Some 4
   \<and> array_get (getPageMappingForSheet 0 True CollateCut 2 1 True 8) 1 = Some 4"
proof -
  let ?ps = "\<lparr>columns = 2, rows = 1, impositionType = CollateCut, isDuplex = True,
        readingDirection = Ltr, showSpineMarks = False,
        alternateRotationType = NoRotation\<rparr>"
  have a: "(0::nat) < 8" and b: "impositionType ?ps = Booklet \<longrightarrow> 0 < columns ?ps * rows ?ps"
    by simp_all
  have c: "impositionType ?ps \<noteq> Booklet" by simp
  have "pageInSlot (frontSide (imposeSheet ?ps 8 0)) 1 = pagesForFront ?ps 8 0 ! 1"
    using frontSide_slot [OF c, of 8 0 1] by simp
  also have "\<dots> = Some 4"
    using pagesForFront_CollateCut_nth [of ?ps 1 8 0] by (simp add: Let_def ceil_div_def)
  finally have v: "pageInSlot (frontSide (imposeSheet ?ps 8 0)) 1 = Some 4" .
  show ?thesis
    using preview_mapping_matches_engine [OF a b, of 0] v by simp
qed

section \<open>Collate-cut reconstruction\<close>

lemma concat_blocks:
  "concat (map (\<lambda>k. map f [a + k * m ..< a + k * m + m]) [0..<n]) = map f [a ..< a + n * m]"
proof (induction n)
  case 0
  then show ?case by simp
next
  case (Suc n)
  have "[a ..< a + n * m + m] = [a ..< a + n * m] @ [a + n * m ..< a + n * m + m]"
    by (rule upt_add_eq_append) simp
  then show ?case using Suc by (simp add: add.assoc add.commute [of m])
qed

lemma map_page_if:
  assumes "P \<le> n"
  shows "map (\<lambda>x. if x < P then Some x else None) [0..<n]
           = map Some [0..<P] @ replicate (n - P) None"
proof -
  have "[0..<n] = [0..<P] @ [P..<n]"
    using assms upt_add_eq_append [of 0 P "n - P"] by simp
  moreover have "map (\<lambda>x. if x < P then Some x else None) [0..<P] = map Some [0..<P]"
    by simp
  moreover have "map (\<lambda>x. if x < P then Some x else None) [P..<n] = replicate (n - P) None"
  proof -
    have "map (\<lambda>x. if x < P then Some x else None) [P..<n] = map (\<lambda>x. None) [P..<n]"
      by (rule map_cong) auto
    then show ?thesis by (simp add: map_replicate_const)
  qed
  ultimately show ?thesis by simp
qed

lemma slotBehind_rowcol:
  assumes "col < cols"
  shows "slotBehind cols (row * cols + col) = row * cols + (cols - 1 - col)"
  using assms by (simp add: slotBehind_def)

lemma pageInSlot_behind:
  assumes ty: "impositionType ps = Stack \<or> impositionType ps = CollateCut"
    and d: "isDuplex ps" and j: "j < columns ps * rows ps"
  shows "\<exists>bs. backSide (imposeSheet ps P k) = Some bs
           \<and> pageInSlot bs (slotBehind (columns ps) j) = pagesForBack ps P k ! j"
proof -
  have nb: "impositionType ps \<noteq> Booklet" using ty by auto
  have pos: "0 < columns ps" using j by (cases "columns ps") auto
  define row where "row = j div columns ps"
  define col where "col = j mod columns ps"
  have jj: "j = row * columns ps + col" by (simp add: row_def col_def)
  have c: "col < columns ps" using pos by (simp add: col_def)
  have r: "row < rows ps"
    using j pos by (simp add: row_def less_mult_imp_div_less mult.commute)
  define col' where "col' = columns ps - 1 - col"
  have c': "col' < columns ps" using c by (simp add: col'_def)
  have sb: "slotBehind (columns ps) j = row * columns ps + col'"
    unfolding jj col'_def by (rule slotBehind_rowcol [OF c])
  have undo: "(if (impositionType ps = Stack \<or> impositionType ps = CollateCut) \<and> columns ps > 1
              then columns ps - 1 - col' else col') = col"
    using c ty by (auto simp: col'_def)
  obtain bs where bs: "backSide (imposeSheet ps P k) = Some bs"
    and sl: "\<And>i. pageInSlot bs i
               = (if i < columns ps * rows ps then pagesForBackToRender ps P k ! i else None)"
    using backSide_slot [OF nb d, of P k] by blast
  have "pageInSlot bs (row * columns ps + col') = pagesForBackToRender ps P k ! (row * columns ps + col')"
    using sl [of "row * columns ps + col'"] slot_index_bound [OF r c'] by simp
  also have "\<dots> = pagesForBack ps P k ! (row * columns ps + col)"
    using pagesForBackToRender_nth [OF nb r c', of P k] unfolding undo by simp
  finally show ?thesis using bs sb jj by simp
qed


lemma collate_sheet_count:
  assumes "impositionType ps = CollateCut" "0 < columns ps * rows ps" "0 < P"
  shows "totalPhysicalSheets ps P
           = Some (if isDuplex ps then ceil_div (ceil_div P (columns ps * rows ps)) 2
                   else ceil_div P (columns ps * rows ps))"
    and "P \<le> columns ps * rows ps
              * (the (totalPhysicalSheets ps P) * (if isDuplex ps then 2 else 1))"
proof -
  let ?S = "columns ps * rows ps"
  let ?pp = "ceil_div P ?S"
  have pp: "0 < ?pp" by (rule ceil_div_pos [OF assms(2,3)])
  have pp2: "0 < ceil_div ?pp 2" by (rule ceil_div_pos [OF _ pp]) simp
  show t: "totalPhysicalSheets ps P = Some (if isDuplex ps then ceil_div ?pp 2 else ?pp)"
    using assms pp pp2 by (simp add: totalPhysicalSheets_def slotsPerSheet_def Let_def)
  have "P \<le> ?pp * ?S" by (rule ceil_div_ge [OF assms(2)])
  moreover have "?pp \<le> the (totalPhysicalSheets ps P) * (if isDuplex ps then 2 else 1)"
    using ceil_div_ge [of 2 ?pp] by (simp add: t)
  ultimately have "P \<le> (the (totalPhysicalSheets ps P) * (if isDuplex ps then 2 else 1)) * ?S"
    by (meson le_trans mult_le_mono1)
  then show "P \<le> ?S * (the (totalPhysicalSheets ps P) * (if isDuplex ps then 2 else 1))"
    by (simp add: mult.commute)
qed

lemma collate_leafPages:
  assumes ty: "impositionType ps = CollateCut" and j: "j < columns ps * rows ps" and "0 < P"
  shows "leafPages (columns ps) (imposeSheet ps P k) j
           = map (\<lambda>x. if x < P then Some x else None)
               [j * (the (totalPhysicalSheets ps P) * (if isDuplex ps then 2 else 1))
                   + k * (if isDuplex ps then 2 else 1)
                ..< j * (the (totalPhysicalSheets ps P) * (if isDuplex ps then 2 else 1))
                   + k * (if isDuplex ps then 2 else 1) + (if isDuplex ps then 2 else 1)]"
proof -
  have nb: "impositionType ps \<noteq> Booklet" using ty by simp
  have pos: "0 < columns ps * rows ps" using j by linarith
  note t = collate_sheet_count(1) [OF ty pos assms(3)]
  have f: "pageInSlot (frontSide (imposeSheet ps P k)) j = pagesForFront ps P k ! j"
    using frontSide_slot [OF nb, of P k j] j by simp
  define N where "N = the (totalPhysicalSheets ps P)"
  have N: "N = (if isDuplex ps then ceil_div (ceil_div P (columns ps * rows ps)) 2
                else ceil_div P (columns ps * rows ps))"
    unfolding N_def t by simp
  show ?thesis
    unfolding N_def [symmetric]
  proof (cases "isDuplex ps")
    case True
    obtain bs where bs: "backSide (imposeSheet ps P k) = Some bs"
      and b: "pageInSlot bs (slotBehind (columns ps) j) = pagesForBack ps P k ! j"
      using pageInSlot_behind [OF _ True j, of P k] ty by blast
    have "[j * (N * 2) + k * 2 ..< j * (N * 2) + k * 2 + 2]
            = [j * (N * 2) + k * 2, j * (N * 2) + k * 2 + 1]"
      by (simp add: upt_rec)
    then show "leafPages (columns ps) (imposeSheet ps P k) j
           = map (\<lambda>x. if x < P then Some x else None)
               [j * (N * (if isDuplex ps then 2 else 1)) + k * (if isDuplex ps then 2 else 1)
                ..< j * (N * (if isDuplex ps then 2 else 1))
                   + k * (if isDuplex ps then 2 else 1) + (if isDuplex ps then 2 else 1)]"
      using True f b bs pagesForFront_CollateCut_nth [OF ty j, of P k]
        pagesForBack_CollateCut_nth [OF ty j, of P k] N
      by (simp add: leafPages_def Let_def add.commute add.left_commute)
  next
    case False
    then have "backSide (imposeSheet ps P k) = None" using nb by (simp add: imposeSheet_def)
    then show "leafPages (columns ps) (imposeSheet ps P k) j
           = map (\<lambda>x. if x < P then Some x else None)
               [j * (N * (if isDuplex ps then 2 else 1)) + k * (if isDuplex ps then 2 else 1)
                ..< j * (N * (if isDuplex ps then 2 else 1))
                   + k * (if isDuplex ps then 2 else 1) + (if isDuplex ps then 2 else 1)]"
      using False f pagesForFront_CollateCut_nth [OF ty j, of P k] N
      by (simp add: leafPages_def Let_def add.commute)
  qed
qed


text \<open>What a run of the engine that returns sheets has checked and produced.\<close>

lemma imposePdf_sheets:
  assumes "imposePdf ps lay P = Some (Inr sheets)"
  shows "0 < P"
    and "\<exists>n. totalPhysicalSheets ps P = Some n \<and> sheets = map (imposeSheet ps P) [0..<n]"
proof -
  show P: "0 < P" using assms by (cases "P = 0") (simp_all add: imposePdf_def)
  obtain n where n: "totalPhysicalSheets ps P = Some n"
    and s: "sheets = for_loop (\<lambda>physicalSheetIndex out. out @ [imposeSheet ps P physicalSheetIndex])
                       0 n []"
    using assms P
    by (auto simp: imposePdf_def split: if_splits sum.splits option.splits)
  show "\<exists>n. totalPhysicalSheets ps P = Some n \<and> sheets = map (imposeSheet ps P) [0..<n]"
    using n s by (simp add: for_loop_push0)
qed

lemma collate_grid:
  assumes "impositionType ps = CollateCut" "totalPhysicalSheets ps P = Some n"
  shows "0 < columns ps * rows ps"
  using assms
  by (cases "columns ps * rows ps = 0")
     (simp_all add: totalPhysicalSheets_def slotsPerSheet_def)

lemma collate_cutAndStack:
  assumes ty: "impositionType ps = CollateCut" and pos: "0 < columns ps * rows ps"
    and P: "0 < P"
  shows "cutAndStack ps (map (imposeSheet ps P) [0..<the (totalPhysicalSheets ps P)])
           = map Some [0..<P]
               @ replicate (columns ps * rows ps
                   * (the (totalPhysicalSheets ps P) * (if isDuplex ps then 2 else 1)) - P) None"
proof -
  let ?m = "if isDuplex ps then 2 else 1 :: nat"
  let ?N = "the (totalPhysicalSheets ps P)"
  let ?T = "?N * ?m"
  let ?S = "columns ps * rows ps"
  let ?opt = "\<lambda>x. if x < P then Some x else None"
  have pile: "concat (map (\<lambda>sh. leafPages (columns ps) sh j) (map (imposeSheet ps P) [0..<?N]))
                = map ?opt [0 + j * ?T ..< 0 + j * ?T + ?T]"
    if j: "j < ?S" for j
  proof -
    have "concat (map (\<lambda>sh. leafPages (columns ps) sh j) (map (imposeSheet ps P) [0..<?N]))
            = concat (map (\<lambda>k. map ?opt [j * ?T + k * ?m ..< j * ?T + k * ?m + ?m]) [0..<?N])"
      unfolding map_map comp_def
      by (intro arg_cong [where f = concat] map_cong refl) (rule collate_leafPages [OF ty j P])
    also have "\<dots> = map ?opt [j * ?T ..< j * ?T + ?N * ?m]" by (rule concat_blocks)
    finally show ?thesis by simp
  qed
  have "cutAndStack ps (map (imposeSheet ps P) [0..<?N])
          = concat (map (\<lambda>j. map ?opt [0 + j * ?T ..< 0 + j * ?T + ?T]) [0..<?S])"
    unfolding cutAndStack_def
  proof (intro arg_cong [where f = concat] map_cong refl)
    fix j assume "j \<in> set [0..<?S]"
    then have "j < ?S" by simp
    then show "concat (map (\<lambda>sh. leafPages (columns ps) sh j)
                 (map (imposeSheet ps P) [0..<?N]))
               = map ?opt [0 + j * ?T ..< 0 + j * ?T + ?T]"
      by (rule pile)
  qed
  also have "\<dots> = map ?opt [0 ..< 0 + ?S * ?T]" by (rule concat_blocks)
  also have "\<dots> = map Some [0..<P] @ replicate (?S * ?T - P) None"
    using map_page_if [OF collate_sheet_count(2) [OF ty pos P]] by simp
  finally show ?thesis .
qed

text \<open>On a grid of one row a column strip is a single leaf.\<close>

lemma stackColumns_one_row:
  assumes "rows ps = 1"
  shows "stackColumns ps sheets = cutAndStack ps sheets"
proof -
  have "stripPages ps sh col = leafPages (columns ps) sh col" for sh col
    by (simp add: stripPages_def leafPages_def assms split: option.split)
  then show ?thesis by (simp add: stackColumns_def cutAndStack_def assms)
qed

lemma collate_scenario:
  fixes rd sm ar
  defines "ps8 \<equiv> \<lparr>columns = 2, rows = 1, impositionType = CollateCut, isDuplex = True,
                   readingDirection = rd, showSpineMarks = sm, alternateRotationType = ar\<rparr>"
  shows "map (pageInSlot (frontSide (imposeSheet ps8 8 0))) [0, 1] = [Some 0, Some 4]"
    and "\<exists>bs. backSide (imposeSheet ps8 8 0) = Some bs
           \<and> map (pageInSlot bs) [0, 1] = [Some 5, Some 1]"
proof -
  have ty: "impositionType ps8 = CollateCut" and nb: "impositionType ps8 \<noteq> Booklet"
    and d: "isDuplex ps8" and c: "columns ps8 = 2" and r: "rows ps8 = 1"
    by (simp_all add: ps8_def)
  have f: "pagesForFront ps8 8 0 ! 0 = Some 0" "pagesForFront ps8 8 0 ! 1 = Some 4"
    using pagesForFront_CollateCut_nth [OF ty, of 0 8 0]
      pagesForFront_CollateCut_nth [OF ty, of 1 8 0]
    by (simp_all add: c r d Let_def ceil_div_def)
  have b: "pagesForBack ps8 8 0 ! 0 = Some 1" "pagesForBack ps8 8 0 ! 1 = Some 5"
    using pagesForBack_CollateCut_nth [OF ty, of 0 8 0]
      pagesForBack_CollateCut_nth [OF ty, of 1 8 0]
    by (simp_all add: c r Let_def ceil_div_def)
  show "map (pageInSlot (frontSide (imposeSheet ps8 8 0))) [0, 1] = [Some 0, Some 4]"
    using frontSide_slot [OF nb, of 8 0] f by (simp add: c r)
  obtain bs where bs: "backSide (imposeSheet ps8 8 0) = Some bs"
    and sl: "\<And>j. pageInSlot bs j
               = (if j < columns ps8 * rows ps8 then pagesForBackToRender ps8 8 0 ! j else None)"
    using backSide_slot [OF nb d, of 8 0] by blast
  have r0: "pagesForBackToRender ps8 8 0 ! 0 = pagesForBack ps8 8 0 ! 1"
    using pagesForBackToRender_nth [OF nb, of 0 0 8 0] by (simp add: c r ty)
  have r1: "pagesForBackToRender ps8 8 0 ! 1 = pagesForBack ps8 8 0 ! 0"
    using pagesForBackToRender_nth [OF nb, of 0 1 8 0] by (simp add: c r ty)
  have m: "map (pageInSlot bs) [0, 1] = [Some 5, Some 1]"
    using sl [of 0] sl [of 1] r0 r1 b by (simp add: c r)
  show "\<exists>bs. backSide (imposeSheet ps8 8 0) = Some bs
           \<and> map (pageInSlot bs) [0, 1] = [Some 5, Some 1]"
    by (rule exI [of _ bs]) (simp only: bs m simp_thms)
qed

text \<open>
  Claim C2, as amended. Collate-cut mode, whenever the engine returns sheets for a document
  of \<open>P\<close> pages (any grid, duplex or not). Cutting the sheets into single slots and stacking
  the piles in slot order (inside a pile sheet after sheet, front before back when duplex)
  gives the pages \<open>0, 1, ..., P - 1\<close> in order, followed only by blank leaves. On a grid of
  one row these piles are the vertical columns of the sheets. For the 8-page duplex 2 x 1
  job, the front slots of sheet 0 hold pages (0, 4) and its back slots, after the
  work-and-turn reversal, hold (5, 1).
\<close>

theorem collate_cut_reconstruction:
  assumes "impositionType ps = CollateCut" and "imposePdf ps lay P = Some (Inr sheets)"
  shows "cutAndStack ps sheets
           = map Some [0..<P]
               @ replicate (columns ps * rows ps
                   * (length sheets * (if isDuplex ps then 2 else 1)) - P) None
       \<and> (rows ps = 1 \<longrightarrow> stackColumns ps sheets = cutAndStack ps sheets)
       \<and> map (pageInSlot (frontSide (imposeSheet
              \<lparr>columns = 2, rows = 1, impositionType = CollateCut, isDuplex = True,
               readingDirection = rd, showSpineMarks = sm, alternateRotationType = ar\<rparr> 8 0)))
            [0, 1] = [Some 0, Some 4]
       \<and> (\<exists>bs. backSide (imposeSheet
              \<lparr>columns = 2, rows = 1, impositionType = CollateCut, isDuplex = True,
               readingDirection = rd, showSpineMarks = sm, alternateRotationType = ar\<rparr> 8 0)
              = Some bs
            \<and> map (pageInSlot bs) [0, 1] = [Some 5, Some 1])"
proof -
  note r = imposePdf_sheets [OF assms(2)]
  obtain n where n: "totalPhysicalSheets ps P = Some n"
    and s: "sheets = map (imposeSheet ps P) [0..<n]"
    using r(2) by blast
  have pos: "0 < columns ps * rows ps" by (rule collate_grid [OF assms(1) n])
  have "cutAndStack ps sheets
           = map Some [0..<P]
               @ replicate (columns ps * rows ps
                   * (length sheets * (if isDuplex ps then 2 else 1)) - P) None"
    using collate_cutAndStack [OF assms(1) pos r(1)] unfolding n s by simp
  moreover have "rows ps = 1 \<longrightarrow> stackColumns ps sheets = cutAndStack ps sheets"
    using stackColumns_one_row by blast
  ultimately show ?thesis using collate_scenario [of rd sm ar] by blast
qed

theorem collate_cut_reconstruction_witness:
  "\<exists>sheets. imposePdf \<lparr>columns = 2, rows = 1, impositionType = CollateCut, isDuplex = True,
               readingDirection = Ltr, showSpineMarks = False,
               alternateRotationType = NoRotation\<rparr> exampleLayout 8 = Some (Inr sheets)
      \<and> length sheets = 2
      \<and> cutAndStack \<lparr>columns = 2, rows = 1, impositionType = CollateCut, isDuplex = True,
               readingDirection = Ltr, showSpineMarks = False,
               alternateRotationType = NoRotation\<rparr> sheets
           = [Some 0, Some 1, Some 2, Some 3, Some 4, Some 5, Some 6, Some 7]
      \<and> stackColumns \<lparr>columns = 2, rows = 1, impositionType = CollateCut, isDuplex = True,
               readingDirection = Ltr, showSpineMarks = False,
               alternateRotationType = NoRotation\<rparr> sheets
           = [Some 0, Some 1, Some 2, Some 3, Some 4, Some 5, Some 6, Some 7]"
proof -
  let ?ps = "\<lparr>columns = 2, rows = 1, impositionType = CollateCut, isDuplex = True,
               readingDirection = Ltr, showSpineMarks = False,
               alternateRotationType = NoRotation\<rparr>"
  let ?sheets = "map (imposeSheet ?ps 8) [0..<2]"
  have n: "totalPhysicalSheets ?ps 8 = Some 2"
    by (simp add: totalPhysicalSheets_def slotsPerSheet_def ceil_div_def Let_def)
  have lay: "actualSheetSize ?ps exampleLayout = Inr (936, 1368)"
    by (simp add: actualSheetSize_def exampleLayout_def INCH_TO_POINTS_def gaps_def Let_def)
  have s: "imposePdf ?ps exampleLayout 8 = Some (Inr ?sheets)"
    unfolding imposePdf_def lay n
    by (simp add: startBlock_def exampleLayout_def INCH_TO_POINTS_def gaps_def Let_def
        currentColumnsForLayout_def currentRowsForLayout_def for_loop_push0)
  have a: "impositionType ?ps = CollateCut" and c: "rows ?ps = 1" by simp_all
  note t = collate_cut_reconstruction [OF a s]
  have u: "[0..<8] = [0, 1, 2, 3, 4, 5, 6, 7::nat]" by (simp add: upt_rec)
  have r: "cutAndStack ?ps ?sheets
             = [Some 0, Some 1, Some 2, Some 3, Some 4, Some 5, Some 6, Some 7]"
    using t by (simp add: u)
  have "stackColumns ?ps ?sheets = cutAndStack ?ps ?sheets" using t c by blast
  then show ?thesis using s r by (intro exI [of _ ?sheets]) simp
qed

text \<open>
  Cutting into vertical columns does not give the document back on a grid of two rows:
  8 pages, simplex, on a 2 x 2 grid are printed on two sheets, and the column piles read
  0, 4, 1, 5, 2, 6, 3, 7.
\<close>

theorem collate_cut_columns_counterexample:
  "imposePdf \<lparr>columns = 2, rows = 2, impositionType = CollateCut, isDuplex = False,
              readingDirection = Ltr, showSpineMarks = False,
              alternateRotationType = NoRotation\<rparr> exampleLayout 8
     = Some (Inr (map (imposeSheet \<lparr>columns = 2, rows = 2, impositionType = CollateCut,
                        isDuplex = False, readingDirection = Ltr, showSpineMarks = False,
                        alternateRotationType = NoRotation\<rparr> 8) [0, 1]))
   \<and> stackColumns \<lparr>columns = 2, rows = 2, impositionType = CollateCut, isDuplex = False,
              readingDirection = Ltr, showSpineMarks = False,
              alternateRotationType = NoRotation\<rparr>
         (map (imposeSheet \<lparr>columns = 2, rows = 2, impositionType = CollateCut,
                 isDuplex = False, readingDirection = Ltr, showSpineMarks = False,
                 alternateRotationType = NoRotation\<rparr> 8) [0, 1])
       = [Some 0, Some 4, Some 1, Some 5, Some 2, Some 6, Some 3, Some 7]"
  by code_simp

section \<open>Cover geometry: spine and spread\<close>

lemma ppi_pos: "0 < INTERIOR_PAPER_PPI t w"
  by (cases t; cases w) simp_all

text \<open>
  Claim C6. For a positive page count \<open>P\<close> (and a positive finished size, without which
  the cover engine computes nothing), any interior stock with its pages per inch and any
  cover stock with its caliper \<open>c\<close>: spine width \<open>= P / PPI + 2 * c\<close>, full cover width
  \<open>= 2 * trim_w + spine + 2 * bleed\<close>, full cover height \<open>= trim_h + 2 * bleed\<close>. Opaque 80#
  has 400 pages per inch, silk 100# cover is 0.0095 in thick, and 96 pages of the one in
  the other give a spine of 0.259 in.
\<close>

theorem cover_geometry:
  assumes "0 < P" and "0 < trim_w" and "0 < trim_h"
  shows "(\<exists>dims. calculatedDimensions it iw ct cw P trim_w trim_h bleed = Some dims
            \<and> spineWidthInches dims
                 = P / INTERIOR_PAPER_PPI it iw + 2 * COVER_PAPER_THICKNESS ct cw
            \<and> fullCoverWidthInches dims
                 = 2 * trim_w + spineWidthInches dims + 2 * bleed
            \<and> fullCoverHeightInches dims = trim_h + 2 * bleed)
       \<and> INTERIOR_PAPER_PPI InteriorOpaque Interior80 = 400
       \<and> COVER_PAPER_THICKNESS CoverSilk Cover100 = 0.0095
       \<and> (\<exists>dims. calculatedDimensions InteriorOpaque Interior80 CoverSilk Cover100
                     96 trim_w trim_h bleed = Some dims
            \<and> spineWidthInches dims = 0.259)"
  using assms ppi_pos [of it iw]
  by (simp add: calculatedDimensions_def Let_def)

theorem cover_geometry_witness:
  "\<exists>dims. calculatedDimensions InteriorGloss Interior60 CoverGloss Cover130 270 6 9 0.125
             = Some dims
     \<and> spineWidthInches dims = 0.526
     \<and> fullCoverWidthInches dims = 12.776
     \<and> fullCoverHeightInches dims = 9.25"
proof -
  have a: "(0::real) < 270" and b: "(0::real) < 6" and c: "(0::real) < 9" by simp_all
  show ?thesis
    using cover_geometry [OF a b c, of InteriorGloss Interior60 CoverGloss Cover130 "0.125"]
    by auto
qed

section \<open>The saddle-stitch guard\<close>





section \<open>Shipping: the scenario of the small box\<close>

text \<open>
  Claim C8, as amended. For 500 books of 5.5 x 8.5 x 0.25 inches at 0.6 lb each, the
  packer's evaluation of the Standard Small Box (11.75 x 8.75 x 4.75) yields 38 books per
  box: the six orientations admit 38, 0, 19, 0, 0 and 0 books and the packer takes the
  largest. The weight cap of 66 books does not bind, the box count is
  \<open>ceil (500 / 38) = 14\<close>, the carrier cost is read at 300 lb (229.50), and the total is
  254.
\<close>

theorem shipping_scenario_small_box:
  "calculateShipping 500 5.5 8.5 0.25 0.6 (Some ''Standard Small Box (11.75x8.75x4.75)'')
     = \<lparr>shippingCost = Fin 254,
        breakdown = Some \<lparr>boxName = ''Standard Small Box (11.75x8.75x4.75)'',
                           boxCount = Fin 14, booksPerBox = Fin 38, totalWeightLbs = 300\<rparr>\<rparr>
   \<and> orientations 5.5 8.5 0.25
        \<lparr>name = ''Standard Small Box (11.75x8.75x4.75)'', width = 11.75, len = 8.75,
         height = 4.75, cost = 1.75\<rparr>
       = [Fin 38, Fin 0, Fin 19, Fin 0, Fin 0, Fin 0]
   \<and> js_floor (js_div (Fin MAX_WEIGHT_PER_BOX_LBS) (Fin 0.6)) = Fin 66
   \<and> js_ceil (js_div (Fin 500) (Fin 38)) = Fin 14
   \<and> getCarrierCost (500 * 0.6) = 229.5
   \<and> 14 * 1.75 + getCarrierCost (500 * 0.6) = 254"
  by code_simp

text \<open>
  The claim as first stated (19 books per box, 27 boxes) is not what the packer returns.
\<close>

theorem shipping_scenario_19_counterexample:
  "booksPerBox (the (breakdown
      (calculateShipping 500 5.5 8.5 0.25 0.6 (Some ''Standard Small Box (11.75x8.75x4.75)''))))
     \<noteq> Fin 19
   \<and> boxCount (the (breakdown
      (calculateShipping 500 5.5 8.5 0.25 0.6 (Some ''Standard Small Box (11.75x8.75x4.75)''))))
     \<noteq> Fin 27"
  by code_simp

section \<open>Shipping: the packing plan over exact quotients\<close>

lemma flatBoxes_positive:
  "box \<in> set flatBoxes \<Longrightarrow> 0 < width box \<and> 0 < len box \<and> 0 < height box \<and> 0 \<le> cost box"
proof -
  have "list_all (\<lambda>box. 0 < width box \<and> 0 < len box \<and> 0 < height box \<and> 0 \<le> cost box) flatBoxes"
    by code_simp
  then show "box \<in> set flatBoxes \<Longrightarrow> 0 < width box \<and> 0 < len box \<and> 0 < height box \<and> 0 \<le> cost box"
    by (simp add: list_all_iff)
qed

text \<open>Values that are not negative: NaN, plus infinity, or a finite number from 0 up.\<close>

lemma floor_div_cases:
  assumes "0 < a" "0 \<le> b"
  shows "js_floor (js_div (Fin a) (Fin b)) = PInf
       \<or> (\<exists>r\<ge>0. js_floor (js_div (Fin a) (Fin b)) = Fin r)"
proof (cases "b = 0")
  case True
  then show ?thesis using assms by simp
next
  case False
  then have "0 \<le> a / b" using assms by simp
  then have "0 \<le> \<lfloor>a / b\<rfloor>" by simp
  then show ?thesis using False by simp
qed

lemma js_mul_nonneg:
  assumes "x = NaN \<or> x = PInf \<or> (\<exists>r\<ge>0. x = Fin r)"
    and "y = NaN \<or> y = PInf \<or> (\<exists>r\<ge>0. y = Fin r)"
  shows "js_mul x y = NaN \<or> js_mul x y = PInf \<or> (\<exists>r\<ge>0. js_mul x y = Fin r)"
  using assms by (cases x; cases y) auto

lemma floor_product_nonneg:
  assumes "0 < a" "0 \<le> b" "0 < a'" "0 \<le> b'" "0 < a''" "0 \<le> b''"
  shows "js_mul (js_mul (js_floor (js_div (Fin a) (Fin b))) (js_floor (js_div (Fin a') (Fin b'))))
                 (js_floor (js_div (Fin a'') (Fin b''))) = NaN
         \<or> js_mul (js_mul (js_floor (js_div (Fin a) (Fin b))) (js_floor (js_div (Fin a') (Fin b'))))
                 (js_floor (js_div (Fin a'') (Fin b''))) = PInf
         \<or> (\<exists>r\<ge>0. js_mul (js_mul (js_floor (js_div (Fin a) (Fin b)))
                               (js_floor (js_div (Fin a') (Fin b'))))
                 (js_floor (js_div (Fin a'') (Fin b''))) = Fin r)"
proof -
  have f: "js_floor (js_div (Fin a) (Fin b)) = NaN \<or> js_floor (js_div (Fin a) (Fin b)) = PInf
           \<or> (\<exists>r\<ge>0. js_floor (js_div (Fin a) (Fin b)) = Fin r)"
    if "0 < a" "0 \<le> b" for a b
    using floor_div_cases [OF that] by blast
  show ?thesis by (intro js_mul_nonneg f assms)
qed

lemma orientations_nonneg:
  assumes "0 < width box" "0 < len box" "0 < height box" "0 \<le> w" "0 \<le> l" "0 \<le> s"
    and "x \<in> set (orientations w l s box)"
  shows "x = NaN \<or> x = PInf \<or> (\<exists>r\<ge>0. x = Fin r)"
proof -
  have "list_all (\<lambda>x. x = NaN \<or> x = PInf \<or> (\<exists>r\<ge>0. x = Fin r)) (orientations w l s box)"
    unfolding orientations_def Let_def list.pred_inject
    by (intro conjI floor_product_nonneg assms list.pred_inject(1))
  then show ?thesis using assms(7) by (simp only: list_all_iff)
qed

lemma js_max2_cases:
  "js_max2 a b = NaN \<or> (a \<noteq> NaN \<and> b \<noteq> NaN \<and> (js_max2 a b = a \<or> js_max2 a b = b))"
  by (cases a; cases b) auto

lemma Math_max_in_set:
  "xs \<noteq> [] \<Longrightarrow> Math_max xs \<noteq> NaN \<Longrightarrow> Math_max xs \<in> set xs"
proof (induction xs)
  case Nil
  then show ?case by simp
next
  case (Cons x xs)
  have m: "Math_max (x # xs) = js_max2 x (Math_max xs)" by (simp add: Math_max_def)
  show ?case
  proof (cases "xs = []")
    case True
    then have "Math_max (x # xs) = js_max2 x NInf" by (simp add: Math_max_def)
    then show ?thesis using Cons.prems(2) by (cases x) auto
  next
    case False
    have "Math_max xs \<noteq> NaN"
      using js_max2_cases [of x "Math_max xs"] Cons.prems(2) unfolding m by auto
    then have "Math_max xs \<in> set xs" using Cons.IH False by blast
    then show ?thesis
      using js_max2_cases [of x "Math_max xs"] Cons.prems(2) unfolding m by auto
  qed
qed


lemma orientations_not_Nil: "orientations w l s box \<noteq> []"
  by (simp add: orientations_def Let_def)

lemma considerBox_sound:
  assumes box: "0 < width box" "0 < len box" "0 < height box"
    and q: "0 < q" and wt: "0 < wt" and dims: "0 \<le> w" "0 \<le> l" "0 \<le> s"
  shows "considerBox q w l s wt box best = best
       \<or> (\<exists>b n. considerBox q w l s wt box best
                   = \<lparr>best_cost = Fin (n * cost box + getCarrierCost (q * wt)),
                      best_breakdown =
                        Some \<lparr>boxName = name box, boxCount = Fin n, booksPerBox = Fin b,
                               totalWeightLbs = q * wt\<rparr>\<rparr>
                \<and> 0 < b \<and> q \<le> b * n \<and> b * wt \<le> MAX_WEIGHT_PER_BOX_LBS
                \<and> (\<exists>x \<in> set (orientations w l s box).
                       x = PInf \<or> (\<exists>r. x = Fin r \<and> 0 < r \<and> b \<le> r)))"
proof -
  define m0 where "m0 = Math_max (orientations w l s box)"
  define M :: real where "M = of_int \<lfloor>MAX_WEIGHT_PER_BOX_LBS / wt\<rfloor>"
  have mbw: "js_floor (js_div (Fin MAX_WEIGHT_PER_BOX_LBS) (Fin wt)) = Fin M"
    using wt by (simp add: M_def)
  have Mle: "M * wt \<le> MAX_WEIGHT_PER_BOX_LBS"
  proof -
    have "M \<le> MAX_WEIGHT_PER_BOX_LBS / wt" by (simp add: M_def)
    then show ?thesis using wt by (simp add: pos_le_divide_eq)
  qed
  show ?thesis
  proof (cases "considerBox q w l s wt box best = best")
    case True
    then show ?thesis by simp
  next
    case False
    then have m0_0: "m0 \<noteq> Fin 0" and Mpos: "0 < M"
      and lt: "js_lt (js_add (js_mul (js_ceil (js_div (Fin q) (js_min2 m0 (Fin M))))
                                (Fin (cost box)))
                         (Fin (getCarrierCost (q * wt))))
                 (best_cost best)"
      and res: "considerBox q w l s wt box best
             = \<lparr>best_cost = js_add (js_mul (js_ceil (js_div (Fin q) (js_min2 m0 (Fin M))))
                                     (Fin (cost box)))
                              (Fin (getCarrierCost (q * wt))),
                best_breakdown =
                  Some \<lparr>boxName = name box,
                         boxCount = js_ceil (js_div (Fin q) (js_min2 m0 (Fin M))),
                         booksPerBox = js_min2 m0 (Fin M), totalWeightLbs = q * wt\<rparr>\<rparr>"
      unfolding considerBox_def Let_def m0_def [symmetric] mbw
      by (auto split: if_splits)
    have m0_NaN: "m0 \<noteq> NaN"
    proof
      assume "m0 = NaN"
      then show False using lt by simp
    qed
    then have "m0 \<in> set (orientations w l s box)"
      unfolding m0_def by (intro Math_max_in_set orientations_not_Nil)
    then have cls: "m0 = PInf \<or> (\<exists>r>0. m0 = Fin r)"
      using orientations_nonneg [OF box dims, of m0] m0_NaN m0_0
      by (metis less_eq_real_def)
    have mem: "m0 \<in> set (orientations w l s box)" by fact
    define b where "b = (case m0 of Fin r \<Rightarrow> min r M | _ \<Rightarrow> M)"
    have bmin: "js_min2 m0 (Fin M) = Fin b"
      using cls by (auto simp: b_def min_def)
    have bpos: "0 < b" using cls Mpos by (auto simp: b_def)
    have bM: "b \<le> M" using cls by (auto simp: b_def)
    define n :: real where "n = of_int \<lceil>q / b\<rceil>"
    have cnt: "js_ceil (js_div (Fin q) (Fin b)) = Fin n" using bpos by (simp add: n_def)
    have qn: "q \<le> b * n"
    proof -
      have "q / b \<le> n" by (simp add: n_def)
      then show ?thesis using bpos by (simp add: pos_divide_le_eq mult.commute)
    qed
    have bw: "b * wt \<le> MAX_WEIGHT_PER_BOX_LBS"
    proof -
      have "b * wt \<le> M * wt" using bM wt by (simp add: mult_right_mono)
      then show ?thesis using Mle by linarith
    qed
    have ori: "\<exists>x \<in> set (orientations w l s box).
                 x = PInf \<or> (\<exists>r. x = Fin r \<and> 0 < r \<and> b \<le> r)"
      using mem cls by (auto simp: b_def intro!: bexI [of _ m0])
    have "considerBox q w l s wt box best
            = \<lparr>best_cost = Fin (n * cost box + getCarrierCost (q * wt)),
               best_breakdown =
                 Some \<lparr>boxName = name box, boxCount = Fin n, booksPerBox = Fin b,
                        totalWeightLbs = q * wt\<rparr>\<rparr>"
      unfolding res bmin cnt by simp
    then show ?thesis using bpos qn bw ori by blast
  qed
qed


lemma boxesToConsider_subset: "set (boxesToConsider ov) \<subseteq> set flatBoxes"
  by (auto simp: boxesToConsider_def split: option.split)

lemma calculateShipping_sound:
  assumes dims: "0 \<le> w" "0 \<le> l" "0 \<le> s"
    and plan: "breakdown (calculateShipping q w l s wt ov) = Some plan"
  shows "0 < q \<and> 0 < wt
       \<and> (\<exists>b n box. box \<in> set flatBoxes
             \<and> plan = \<lparr>boxName = name box, boxCount = Fin n, booksPerBox = Fin b,
                        totalWeightLbs = q * wt\<rparr>
             \<and> 0 < b \<and> q \<le> b * n \<and> b * wt \<le> MAX_WEIGHT_PER_BOX_LBS
             \<and> (\<exists>x \<in> set (orientations w l s box).
                    x = PInf \<or> (\<exists>r. x = Fin r \<and> 0 < r \<and> b \<le> r)))"
proof -
  have q: "0 < q" and wt: "0 < wt"
    using plan by (auto simp: calculateShipping_def split: if_splits)
  let ?good = "\<lambda>best. best_breakdown best = None
       \<or> (\<exists>b n box. box \<in> set flatBoxes
             \<and> best_breakdown best
                  = Some \<lparr>boxName = name box, boxCount = Fin n, booksPerBox = Fin b,
                          totalWeightLbs = q * wt\<rparr>
             \<and> 0 < b \<and> q \<le> b * n \<and> b * wt \<le> MAX_WEIGHT_PER_BOX_LBS
             \<and> (\<exists>x \<in> set (orientations w l s box).
                    x = PInf \<or> (\<exists>r. x = Fin r \<and> 0 < r \<and> b \<le> r)))"
  have step: "?good (considerBox q w l s wt box best)"
    if "box \<in> set flatBoxes" and "?good best" for box best
  proof -
    have pos: "0 < width box" "0 < len box" "0 < height box"
      using flatBoxes_positive [OF that(1)] by simp_all
    from considerBox_sound [OF pos q wt dims, of best]
    show ?thesis
    proof
      assume "considerBox q w l s wt box best = best"
      then show ?thesis using that(2) by simp
    next
      assume "\<exists>b n. considerBox q w l s wt box best
                   = \<lparr>best_cost = Fin (n * cost box + getCarrierCost (q * wt)),
                      best_breakdown =
                        Some \<lparr>boxName = name box, boxCount = Fin n, booksPerBox = Fin b,
                               totalWeightLbs = q * wt\<rparr>\<rparr>
                \<and> 0 < b \<and> q \<le> b * n \<and> b * wt \<le> MAX_WEIGHT_PER_BOX_LBS
                \<and> (\<exists>x \<in> set (orientations w l s box).
                       x = PInf \<or> (\<exists>r. x = Fin r \<and> 0 < r \<and> b \<le> r))"
      then obtain b n where
        "considerBox q w l s wt box best
                   = \<lparr>best_cost = Fin (n * cost box + getCarrierCost (q * wt)),
                      best_breakdown =
                        Some \<lparr>boxName = name box, boxCount = Fin n, booksPerBox = Fin b,
                               totalWeightLbs = q * wt\<rparr>\<rparr>"
        "0 < b" "q \<le> b * n" "b * wt \<le> MAX_WEIGHT_PER_BOX_LBS"
        "\<exists>x \<in> set (orientations w l s box).
                       x = PInf \<or> (\<exists>r. x = Fin r \<and> 0 < r \<and> b \<le> r)"
        by blast
      then show ?thesis using that(1) by (intro disjI2 exI [of _ b] exI [of _ n] exI [of _ box]) simp
    qed
  qed
  have fold: "?good (foldl (\<lambda>best box. considerBox q w l s wt box best) best0 boxes)"
    if "set boxes \<subseteq> set flatBoxes" and "?good best0" for boxes best0
    using that
  proof (induction boxes arbitrary: best0)
    case Nil
    then show ?case by simp
  next
    case (Cons box boxes)
    have "?good (considerBox q w l s wt box best0)"
      using Cons.prems by (intro step) auto
    then show ?case using Cons.IH [of "considerBox q w l s wt box best0"] Cons.prems(1)
      by simp
  qed
  have "?good (foldl (\<lambda>best box. considerBox q w l s wt box best)
                 \<lparr>best_cost = PInf, best_breakdown = None\<rparr> (boxesToConsider ov))"
    by (rule fold [OF boxesToConsider_subset]) simp
  moreover have "best_breakdown (foldl (\<lambda>best box. considerBox q w l s wt box best)
                 \<lparr>best_cost = PInf, best_breakdown = None\<rparr> (boxesToConsider ov)) = Some plan"
    using plan q wt by (simp add: calculateShipping_def Let_def)
  ultimately show ?thesis using q wt by auto
qed


lemma findPaper_mem: "findPaper paperData k = Some p \<Longrightarrow> p \<in> set paperData"
  by (auto simp: findPaper_def find_Some_iff)

lemma thickness_nonneg: "0 \<le> gsm p \<Longrightarrow> 0 \<le> getPaperThicknessInches p"
  by (simp add: getPaperThicknessInches_def Let_def)

lemma spineWidth_nonneg:
  assumes "\<forall>p \<in> set paperData. 0 \<le> gsm p"
  shows "0 \<le> spineWidth paperData d"
proof -
  have t: "0 \<le> (case findPaper paperData k of
                   Some p \<Rightarrow> if c then getPaperThicknessInches p else 0 | None \<Rightarrow> 0)" for k c
    using assms findPaper_mem [of paperData k] thickness_nonneg
    by (auto split: option.split)
  have l: "0 \<le> real_of_int \<lceil>x / 2\<rceil>" if "0 < x" for x :: real
  proof -
    have "- 1 < x / 2" using that by simp
    then show ?thesis by (simp add: zero_le_ceiling)
  qed
  show ?thesis
    unfolding spineWidth_def Let_def bwPaper_def colorPaper_def
    by (auto intro!: add_nonneg_nonneg mult_nonneg_nonneg t l simp del: of_int_0_le_iff)
qed

lemma calculateImposition_pos:
  "calculateImposition pw ph jw jh \<noteq> 0 \<Longrightarrow> 0 < jw \<and> 0 < jh"
  by (auto simp: calculateImposition_def split: if_splits)


lemma no_error_conditions:
  assumes "error (calculateCosts paperData d) = None"
  shows "\<not> (bwPaper paperData d \<noteq> None \<and> bwImpositionOf paperData d = 0 \<and> bwPages d > 0)"
    and "\<not> (colorPaper paperData d \<noteq> None \<and> colorImpositionOf paperData d = 0
            \<and> colorPages d > 0)"
    and "\<not> (hasCover d \<and> coverPaper paperData d \<noteq> None \<and> coverImpositionOf paperData d = 0)"
  using assms
  by (auto simp: calculateCosts_def createEmptyCostBreakdown_def split: if_splits)

lemma plan_from_costs:
  assumes "shippingBreakdown (calculateCosts paperData d) = Some plan"
  shows "error (calculateCosts paperData d) = None"
    and "breakdown (calculateShipping (quantity d) (finishedWidth d) (finishedHeight d)
            (spineWidth paperData d) (bookWeightLbs paperData d) (overrideShippingBoxName d))
          = Some plan"
  using assms
  by (auto simp: calculateCosts_def createEmptyCostBreakdown_def shippingResult_def
      split: if_splits)

lemma job_dims_nonneg:
  assumes gsm: "\<forall>p \<in> set paperData. 0 \<le> gsm p"
    and ok: "error (calculateCosts paperData d) = None"
    and wt: "0 < bookWeightLbs paperData d"
  shows "0 \<le> finishedWidth d \<and> 0 \<le> finishedHeight d"
proof (rule ccontr)
  assume neg: "\<not> (0 \<le> finishedWidth d \<and> 0 \<le> finishedHeight d)"
  then have imp0: "calculateImposition pw ph (finishedWidth d) (finishedHeight d) = 0" for pw ph
    by (auto simp: calculateImposition_def)
  have bw0: "bwImpositionOf paperData d = 0"
    by (simp add: bwImpositionOf_def imp0 split: option.split)
  have col0: "colorImpositionOf paperData d = 0"
    by (simp add: colorImpositionOf_def imp0 split: option.split)
  note c = no_error_conditions [OF ok]
  have nobw: "bwPaper paperData d = None \<or> \<not> bwPages d > 0" using c(1) bw0 by blast
  have nocol: "colorPaper paperData d = None \<or> \<not> colorPages d > 0" using c(2) col0 by blast
  have sp0: "spineWidth paperData d = 0"
    using nobw nocol by (auto simp: spineWidth_def Let_def split: option.split)
  have cover: "hasCover d \<and> coverPaper paperData d \<noteq> None"
  proof (rule ccontr)
    assume "\<not> (hasCover d \<and> coverPaper paperData d \<noteq> None)"
    then have "bookWeightLbs paperData d = 0"
      using nobw nocol
      by (auto simp: bookWeightLbs_def calculateSingleBookWeightLbs_def Let_def
          split: option.split)
    then show False using wt by simp
  qed
  then have "coverImpositionOf paperData d \<noteq> 0" using c(3) by blast
  then obtain cp :: PaperStock where
    "1 \<le> calculateImposition (parentWidth cp) (parentHeight cp)
       ((finishedWidth d * 2) + spineWidth paperData d) (finishedHeight d)"
    using cover
    by (auto simp: coverImpositionOf_def Let_def split: option.splits if_splits)
  then have "calculateImposition (parentWidth cp) (parentHeight cp)
       ((finishedWidth d * 2) + spineWidth paperData d) (finishedHeight d) \<noteq> 0"
    by linarith
  then have "0 < finishedWidth d * 2 + spineWidth paperData d \<and> 0 < finishedHeight d"
    by (rule calculateImposition_pos)
  then show False using neg sp0 by simp
qed


text \<open>
  The packing plan over exact quotients. For every catalogue whose stocks have a
  non-negative grammage and every job for which the estimator returns a packing plan: the
  quantity and the book weight are positive, \<open>booksPerBox * boxCount \<ge> quantity\<close>,
  \<open>booksPerBox * bookWeight \<le> 40\<close> lb, and the chosen box is a box of the catalogue in which
  the book fits in at least one of the six axis orientations: the product of per-axis
  floors of that orientation is positive and at least \<open>booksPerBox\<close> (it is infinite when
  an axis of the book measures 0, as the spine of a book that is not perfect bound does).

  This is a fact about floors of exact quotients. The program divides in double
  precision, and \<open>Math.floor(MAX_WEIGHT_PER_BOX_LBS / bookWeightLbs)\<close> is one more than the
  floor of the exact quotient when the division rounds up to an integer; the weight bound
  of the lemma does not carry over to such a plan.
\<close>

lemma packing_plan_sound_exact:
  assumes "\<forall>p \<in> set paperData. 0 \<le> gsm p"
    and "shippingBreakdown (calculateCosts paperData d) = Some plan"
  shows "0 < quantity d \<and> 0 < bookWeightLbs paperData d
       \<and> (\<exists>b n. booksPerBox plan = Fin b \<and> boxCount plan = Fin n
             \<and> quantity d \<le> b * n
             \<and> b * bookWeightLbs paperData d \<le> 40
             \<and> (\<exists>box \<in> set flatBoxes. name box = boxName plan
                   \<and> (\<exists>x \<in> set (orientations (finishedWidth d) (finishedHeight d)
                                    (spineWidth paperData d) box).
                          x = PInf \<or> (\<exists>r. x = Fin r \<and> 0 < r \<and> b \<le> r))))"
proof -
  note p = plan_from_costs [OF assms(2)]
  have q: "0 < quantity d" and wt: "0 < bookWeightLbs paperData d"
    using p(2) by (auto simp: calculateShipping_def split: if_splits)
  have wh: "0 \<le> finishedWidth d" "0 \<le> finishedHeight d"
    using job_dims_nonneg [OF assms(1) p(1) wt] by simp_all
  have s: "0 \<le> spineWidth paperData d" by (rule spineWidth_nonneg [OF assms(1)])
  from calculateShipping_sound [OF wh s p(2)]
  obtain b n box where "box \<in> set flatBoxes"
    and "plan = \<lparr>boxName = name box, boxCount = Fin n, booksPerBox = Fin b,
                 totalWeightLbs = quantity d * bookWeightLbs paperData d\<rparr>"
    and "0 < b" "quantity d \<le> b * n"
    and "b * bookWeightLbs paperData d \<le> MAX_WEIGHT_PER_BOX_LBS"
    and "\<exists>x \<in> set (orientations (finishedWidth d) (finishedHeight d)
                      (spineWidth paperData d) box).
            x = PInf \<or> (\<exists>r. x = Fin r \<and> 0 < r \<and> b \<le> r)"
    by blast
  then show ?thesis using q wt
    by (intro conjI exI [of _ b] exI [of _ n] bexI [of _ box])
       (simp_all add: MAX_WEIGHT_PER_BOX_LBS_def)
qed


text \<open>
  The weight cap in double precision. For a book of 0.5970149253731344 lb (the double
  \<open>5377432390890145 / 2 ^ 53\<close>) the quotient \<open>40 / weight\<close> lies below 67 by less than half
  a unit in the last place and is rounded to 67: the program allows 67 books in a box,
  the floor of the exact quotient is 66, and 67 books weigh more than 40 lb.
\<close>

lemma weight_cap_in_doubles:
  "round_double (MAX_WEIGHT_PER_BOX_LBS / (5377432390890145 / 2 ^ 53)) = 67
   \<and> js_floor (js_div (Fin MAX_WEIGHT_PER_BOX_LBS) (Fin (5377432390890145 / 2 ^ 53))) = Fin 66
   \<and> MAX_WEIGHT_PER_BOX_LBS < 67 * (5377432390890145 / 2 ^ 53)"
proof -
  define x :: real where "x = 40 / (5377432390890145 / 2 ^ 53)"
  have x: "x = 360287970189639680 / 5377432390890145" by (simp add: x_def)
  have pos: "0 < x" by (simp add: x)
  have "(2::real) powr (of_int 6) = 2 ^ 6" "(2::real) powr (of_int (6 + 1)) = 2 ^ 7"
    by (simp_all add: powr_numeral [symmetric] del: powr_numeral)
  then have "2 powr (of_int 6) \<le> x \<and> x < 2 powr (of_int (6 + 1))"
    by (simp add: x)
  then have e: "\<lfloor>log 2 x\<rfloor> = 6"
    using floor_log_eq_powr_iff [of x 2 6] pos by simp
  have p: "pow2 (- 46) = 1 / 70368744177664" by (simp add: pow2_def)
  have m: "round_half_even (x * 70368744177664) = 4714705859903488"
    by (simp add: round_half_even_def Let_def x)
  have r: "round_double x = 67"
    unfolding round_double_def Let_def using pos e
    by (simp add: p m)
  show ?thesis using r by (simp add: x_def MAX_WEIGHT_PER_BOX_LBS_def)
qed


section \<open>Running the estimator on concrete jobs\<close>

lemma ceiling_one_divide_numeral [simp]:
  "\<lceil>1 / numeral b :: real\<rceil> = - (- 1 div numeral b)"
  using ceiling_divide_eq_div [of 1 "numeral b"] by simp

lemmas shipping_defs =
  calculateShipping_def boxesToConsider_def flatBoxes_def shippingBoxes_def
  considerBox_def orientations_def sort_desc_def Math_max_def Let_def
  MAX_WEIGHT_PER_BOX_LBS_def getCarrierCost_def show_nat.simps

lemmas cost_defs =
  calculateCosts_def createEmptyCostBreakdown_def emptyLaborBreakdown_def
  totalInteriorPages_def js_rem_def bwPaper_def colorPaper_def coverPaper_def findPaper_def
  bwImpositionOf_def colorImpositionOf_def coverImpositionOf_def calculateImposition_def
  spineWidth_def getPaperThicknessInches_def spoilageMultiplier_def
  bwPressSheetsOf_def colorPressSheetsOf_def coverPressSheetsOf_def
  bwPaperCostOf_def colorPaperCostOf_def coverPaperCostOf_def
  bwClicks_def colorClicks_def coverClicks_def coverClickCostOf_def laminationCostOf_def
  laborTimes_def productionTimeHoursOf_def laborCostOf_def subtotalOf_def markupAmountOf_def
  bookWeightLbs_def calculateSingleBookWeightLbs_def shippingResult_def totalCostOf_def
  COLOR_CLICK_COST_def BW_CLICK_COST_def GLOSS_LAMINATE_COST_PER_COVER_def
  MATTE_LAMINATE_COST_PER_COVER_def PRINTING_SPEED_SPM_def LAMINATING_SPEED_MPM_def
  PERFECT_BINDER_SETUP_MINS_def PERFECT_BINDER_SPEED_BPH_def SADDLE_STITCHER_SETUP_MINS_def
  SADDLE_STITCHER_SPEED_BPH_def BASE_PREP_TIME_MINS_def WASTAGE_FACTOR_def
  BINDING_INEFFICIENCY_FACTOR_def TRIMMING_SETUP_MINS_def TRIMMING_BOOKS_PER_CYCLE_def
  TRIMMING_CYCLE_TIME_MINS_def SQ_INCH_TO_SQ_METER_def GRAMS_TO_LBS_def

lemma packing_plan_sound_exact_example:
  "shippingBreakdown (calculateCosts examplePaperData (bookJob 100 96 True))
     = Some \<lparr>boxName = ''Standard Medium Box (11.25x8.75x9.5)'', boxCount = Fin 2,
             booksPerBox = Fin 64,
             totalWeightLbs = 2624217704661663 / 62500000000000\<rparr>
   \<and> quantity (bookJob 100 96 True) \<le> 64 * 2
   \<and> 64 * bookWeightLbs examplePaperData (bookJob 100 96 True) \<le> 40"
proof -
  let ?plan = "\<lparr>boxName = ''Standard Medium Box (11.25x8.75x9.5)'', boxCount = Fin 2,
             booksPerBox = Fin 64,
             totalWeightLbs = 2624217704661663 / 62500000000000 :: real\<rparr>"
  have g: "\<forall>p \<in> set examplePaperData. 0 \<le> gsm p" by (simp add: examplePaperData_def)
  have p: "shippingBreakdown (calculateCosts examplePaperData (bookJob 100 96 True)) = Some ?plan"
    by (simp add: cost_defs shipping_defs examplePaperData_def bookJob_def)
  from packing_plan_sound_exact [OF g p]
  obtain b n where "booksPerBox ?plan = Fin b" "boxCount ?plan = Fin n"
    and "quantity (bookJob 100 96 True) \<le> b * n"
    and "b * bookWeightLbs examplePaperData (bookJob 100 96 True) \<le> 40"
    by blast
  then show ?thesis using p by simp
qed


section \<open>Cost monotonicity\<close>

subsection \<open>Production costs\<close>






























subsection \<open>The cheapest packing option\<close>

























subsection \<open>Spine, weight and shipping of a raised job\<close>




















text \<open>
  The condition on the spine. A perfect-bound book without pages has a spine of 0; the
  quotients of box sides by the spine are infinite, an orientation with a floor of 0
  then has the product NaN, and the packer passes over every box with such an
  orientation. With two pages the spine is positive and the small box is used: the total
  falls from 78.61 to 78.21.
\<close>

lemma zero_spine_example:
  "totalCost (calculateCosts examplePaperData (bookJob 1 0 True)) = Fin (157211091 / 2000000)
   \<and> totalCost (calculateCosts examplePaperData (bookJob 1 2 True)) = Fin (156423291 / 2000000)
   \<and> spineWidth examplePaperData (bookJob 1 0 True) = 0"
  by (simp add: cost_defs shipping_defs examplePaperData_def bookJob_def)

section \<open>Booklet pagination\<close>

text \<open>
  Claim C1. In booklet mode the input of \<open>P\<close> pages is padded to
  \<open>padded = 4 * ceil (P / 4)\<close>. On every signature \<open>k < padded / 4\<close> the engine places
  input page \<open>padded - 2k - 1\<close> in the left slot (slot 0) and page \<open>2k\<close> in the right slot
  (slot 1) of the front, page \<open>2k + 1\<close> in the left and page \<open>padded - 2k - 2\<close> in the right
  slot of the back; the preview's mapping gives the same four pages; an index at or
  beyond \<open>P\<close> leaves the slot blank; and the four indices add up to \<open>2 * padded - 2\<close>.
\<close>

theorem booklet_signature:
  assumes "impositionType ps = Booklet" and "0 < P" and "0 < cols * rws"
    and "k < paddedPageCount P div 4"
  shows "paddedPageCount P = 4 * ceil_div P 4
       \<and> pageInSlot (frontSide (imposeSheet ps P k)) 0
            = inputPages P (int (paddedPageCount P) - 2 * int k - 1)
       \<and> pageInSlot (frontSide (imposeSheet ps P k)) 1 = inputPages P (2 * int k)
       \<and> (\<exists>bs. backSide (imposeSheet ps P k) = Some bs
             \<and> pageInSlot bs 0 = inputPages P (2 * int k + 1)
             \<and> pageInSlot bs 1 = inputPages P (int (paddedPageCount P) - 2 * int k - 2))
       \<and> array_get (getPageMappingForSheet k True Booklet cols rws d P) 0
            = inputPages P (int (paddedPageCount P) - 2 * int k - 1)
       \<and> array_get (getPageMappingForSheet k True Booklet cols rws d P) 1
            = inputPages P (2 * int k)
       \<and> array_get (getPageMappingForSheet k False Booklet cols rws d P) 0
            = inputPages P (2 * int k + 1)
       \<and> array_get (getPageMappingForSheet k False Booklet cols rws d P) 1
            = inputPages P (int (paddedPageCount P) - 2 * int k - 2)
       \<and> (\<forall>i. int P \<le> i \<longrightarrow> inputPages P i = None)
       \<and> (\<forall>i. 0 \<le> i \<and> i < int P \<longrightarrow> inputPages P i = Some (nat i))
       \<and> 0 \<le> pageIndexFL (paddedPageCount P) k \<and> 0 \<le> pageIndexBR (paddedPageCount P) k
       \<and> pageIndexFL (paddedPageCount P) k + pageIndexFR k + pageIndexBL k
            + pageIndexBR (paddedPageCount P) k = 2 * int (paddedPageCount P) - 2"
proof -
  have f0: "pageInSlot (frontSide (imposeSheet ps P k)) 0 = bookletPagesForFront P k ! 0"
    and f1: "pageInSlot (frontSide (imposeSheet ps P k)) 1 = bookletPagesForFront P k ! 1"
    using pageInSlot_booklet_front [OF assms(1)] by simp_all
  have b: "\<exists>bs. backSide (imposeSheet ps P k) = Some bs
             \<and> pageInSlot bs 0 = bookletPagesForBack P k ! 0
             \<and> pageInSlot bs 1 = bookletPagesForBack P k ! 1"
    using assms(1)
    by (simp add: imposeSheet_def pageInSlot_drawBookletSide bookletPagesForBack_def Let_def)
  have m: "array_get (getPageMappingForSheet k True Booklet cols rws d P) 0
             = bookletPagesForFront P k ! 0"
    "array_get (getPageMappingForSheet k True Booklet cols rws d P) 1
             = bookletPagesForFront P k ! 1"
    "array_get (getPageMappingForSheet k False Booklet cols rws d P) 0
             = bookletPagesForBack P k ! 0"
    "array_get (getPageMappingForSheet k False Booklet cols rws d P) 1
             = bookletPagesForBack P k ! 1"
    using mapping_booklet_front [OF assms(3,2)] mapping_booklet_back [OF assms(3,2)]
    by simp_all
  have vals: "bookletPagesForFront P k ! 0 = inputPages P (int (paddedPageCount P) - 2 * int k - 1)"
    "bookletPagesForFront P k ! 1 = inputPages P (2 * int k)"
    "bookletPagesForBack P k ! 0 = inputPages P (2 * int k + 1)"
    "bookletPagesForBack P k ! 1 = inputPages P (int (paddedPageCount P) - 2 * int k - 2)"
    by (simp_all add: bookletPagesForFront_def bookletPagesForBack_def Let_def pageIndexFL_def
        pageIndexFR_def pageIndexBL_def pageIndexBR_def mult.commute)
  have k4: "4 * k + 4 \<le> paddedPageCount P"
  proof -
    have "Suc k \<le> ceil_div P 4" using assms(4) by (simp add: paddedPageCount_def)
    then have "Suc k * 4 \<le> ceil_div P 4 * 4" by (rule mult_le_mono1)
    then show ?thesis by (simp add: paddedPageCount_def)
  qed
  have rng: "0 \<le> pageIndexFL (paddedPageCount P) k" "0 \<le> pageIndexBR (paddedPageCount P) k"
    using k4 by (simp_all add: pageIndexFL_def pageIndexBR_def)
  have sum: "pageIndexFL (paddedPageCount P) k + pageIndexFR k + pageIndexBL k
            + pageIndexBR (paddedPageCount P) k = 2 * int (paddedPageCount P) - 2"
    by (simp add: pageIndexFL_def pageIndexFR_def pageIndexBL_def pageIndexBR_def)
  have pad: "paddedPageCount P = 4 * ceil_div P 4" by (simp add: paddedPageCount_def)
  have blank: "\<forall>i. int P \<le> i \<longrightarrow> inputPages P i = None"
    "\<forall>i. 0 \<le> i \<and> i < int P \<longrightarrow> inputPages P i = Some (nat i)"
    by (simp_all add: inputPages_def)
  show ?thesis
    using pad f0 f1 b m rng sum blank unfolding vals by blast
qed


theorem booklet_signature_witness:
  "paddedPageCount 16 = 16
   \<and> pageInSlot (frontSide (imposeSheet
         \<lparr>columns = 2, rows = 1, impositionType = Booklet, isDuplex = True,
          readingDirection = Ltr, showSpineMarks = False,
          alternateRotationType = NoRotation\<rparr> 16 3)) 0 = Some 9
   \<and> pageInSlot (frontSide (imposeSheet
         \<lparr>columns = 2, rows = 1, impositionType = Booklet, isDuplex = True,
          readingDirection = Ltr, showSpineMarks = False,
          alternateRotationType = NoRotation\<rparr> 16 3)) 1 = Some 6
   \<and> (\<exists>bs. backSide (imposeSheet
         \<lparr>columns = 2, rows = 1, impositionType = Booklet, isDuplex = True,
          readingDirection = Ltr, showSpineMarks = False,
          alternateRotationType = NoRotation\<rparr> 16 3) = Some bs
           \<and> pageInSlot bs 0 = Some 7 \<and> pageInSlot bs 1 = Some 8)
   \<and> array_get (getPageMappingForSheet 3 True Booklet 2 1 True 16) 0 = Some 9
   \<and> array_get (getPageMappingForSheet 3 False Booklet 2 1 True 16) 1 = Some 8
   \<and> pageIndexFL 16 3 + pageIndexFR 3 + pageIndexBL 3 + pageIndexBR 16 3 = 30"
proof -
  have p: "paddedPageCount 16 = 16" by (simp add: paddedPageCount_def ceil_div_def)
  show ?thesis
    using booklet_signature [of "\<lparr>columns = 2, rows = 1, impositionType = Booklet,
          isDuplex = True, readingDirection = Ltr, showSpineMarks = False,
          alternateRotationType = NoRotation\<rparr>" 16 2 1 3 True]
    by (simp add: p inputPages_def)
qed

end
